theory Spec2Isabelle
  imports Complex_Main "HOL-Library.Log_Nat"
begin

section \<open>Python floats\<close>

text \<open>
  A Python float is an IEEE 754 double. It is modelled by the real number that is its exact
  value; infinities and NaN have no model. Comparisons of doubles are exact, so they are the
  comparisons of the reals. Arithmetic rounds: the result of \<open>a / b\<close>, \<open>a * b\<close> and
  \<open>a - b\<close> is the double nearest to the exact result, ties to the even significand, which
  \<open>to_double\<close> computes: the unit in the last place of \<open>x\<close> is \<open>2\<close> to the power
  \<open>ulp_exponent x\<close> (53 significant bits, and never below \<open>2^-1074\<close>, the spacing of the
  subnormal numbers), and \<open>x\<close> is rounded to a multiple of it. Results beyond the largest
  double stay finite here; the code would get an infinity, which compares with a finite
  number as the large value here does. An operand that is a Python
  \<open>int\<close> is converted to a double first, which \<open>to_double\<close> on the operands does (a
  double is left as it is). A float literal of the source that is not a binary fraction
  (\<open>0.8\<close>, \<open>1.2\<close>, \<open>0.001\<close>) stands for the double nearest to it.
\<close>

definition round_half_even :: "real \<Rightarrow> int" where
  "round_half_even x =
     (let f = \<lfloor>x\<rfloor>; d = x - of_int f
      in if d < 1 / 2 then f
         else if d > 1 / 2 then f + 1
         else if even f then f else f + 1)"

text \<open>The integer \<open>k\<close> with \<open>2^k \<le> x < 2^(k+1)\<close>, for a positive \<open>x\<close>.\<close>

definition floor_log2 :: "real \<Rightarrow> int" where
  "floor_log2 x = (if 1 \<le> x then bitlen \<lfloor>x\<rfloor> - 1 else - bitlen (\<lceil>1 / x\<rceil> - 1))"

definition ulp_exponent :: "real \<Rightarrow> int" where
  "ulp_exponent x = max (floor_log2 \<bar>x\<bar> - 52) (- 1074)"

definition to_double :: "real \<Rightarrow> real" where
  "to_double x =
     (if x = 0 then 0
      else (let e = ulp_exponent x
            in of_int (round_half_even (x / power_int 2 e)) * power_int 2 e))"

definition lit_0_8 :: real where
  "lit_0_8 = to_double (8 / 10)"

definition lit_1_2 :: real where
  "lit_1_2 = to_double (12 / 10)"

definition lit_0_001 :: real where
  "lit_0_001 = to_double (1 / 1000)"

definition fdiv :: "real \<Rightarrow> real \<Rightarrow> real" where
  "fdiv a b = to_double (to_double a / to_double b)"

definition fmul :: "real \<Rightarrow> real \<Rightarrow> real" where
  "fmul a b = to_double (to_double a * to_double b)"

definition fsub :: "real \<Rightarrow> real \<Rightarrow> real" where
  "fsub a b = to_double (to_double a - to_double b)"

section \<open>Slice manager (src/slice\_manager.py)\<close>

text \<open>
  Python dictionaries are maps; exceptions are values of \<open>py_error\<close>. The time stamp that
  \<open>SLAViolation\<close> reads from the system clock when it is constructed is an input:
  \<open>clock\<close> gives the reading for the violation of each type.
\<close>

datatype SliceType = URLLC | EMBB | MMTC

datatype SLAStatus = COMPLIANT | VIOLATED | UNKNOWN

datatype py_error = KeyError string

record SLARequirements =
  min_bandwidth_mbps :: real
  max_latency_ms :: real
  max_jitter_ms :: real
  max_packet_loss_pct :: real

record SliceConfig =
  sc_name :: string
  slice_type :: SliceType
  sc_port :: nat
  sc_dscp :: nat
  sla :: SLARequirements
  sc_priority :: int
  description :: string

record SLAViolation =
  slice_name :: string
  violation_type :: string
  expected_value :: real
  actual_value :: real
  timestamp :: string
  severity :: string

record SliceManager =
  slices :: "string \<rightharpoonup> SliceConfig"
  violations :: "SLAViolation list"
  violation_counts :: "string \<rightharpoonup> int"

text \<open>One entry of the \<open>details\<close> dictionary returned by \<open>check_sla\<close>.\<close>

record dim_detail =
  required_key :: string
  required :: real
  actual :: real
  compliant :: bool

datatype sla_details = DetailError string | DetailDims "(string \<times> dim_detail) list"

record sla_result =
  status :: SLAStatus
  res_violations :: "SLAViolation list"
  details :: sla_details

record violation_summary =
  total_violations :: nat
  violations_by_slice :: "string \<rightharpoonup> int"
  violations_by_type :: "string \<rightharpoonup> int"
  severity_distribution :: "string \<rightharpoonup> int"

text \<open>\<open>SliceManager.DEFAULT_SLAS\<close>\<close>

fun DEFAULT_SLAS :: "SliceType \<Rightarrow> SLARequirements" where
  "DEFAULT_SLAS URLLC = \<lparr>min_bandwidth_mbps = 5, max_latency_ms = 5,
      max_jitter_ms = 1, max_packet_loss_pct = lit_0_001\<rparr>"
| "DEFAULT_SLAS EMBB = \<lparr>min_bandwidth_mbps = 50, max_latency_ms = 20,
      max_jitter_ms = 5, max_packet_loss_pct = 1\<rparr>"
| "DEFAULT_SLAS MMTC = \<lparr>min_bandwidth_mbps = 1, max_latency_ms = 100,
      max_jitter_ms = 20, max_packet_loss_pct = 1\<rparr>"

definition urllc_config :: SliceConfig where
  "urllc_config = \<lparr>sc_name = ''URLLC'', slice_type = URLLC, sc_port = 5001, sc_dscp = 46,
     sla = DEFAULT_SLAS URLLC, sc_priority = 100,
     description = ''Ultra-Reliable Low-Latency Communication for critical applications''\<rparr>"

definition embb_config :: SliceConfig where
  "embb_config = \<lparr>sc_name = ''eMBB'', slice_type = EMBB, sc_port = 5002, sc_dscp = 34,
     sla = DEFAULT_SLAS EMBB, sc_priority = 50,
     description = ''Enhanced Mobile Broadband for high-throughput applications''\<rparr>"

definition mmtc_config :: SliceConfig where
  "mmtc_config = \<lparr>sc_name = ''mMTC'', slice_type = MMTC, sc_port = 5003, sc_dscp = 10,
     sla = DEFAULT_SLAS MMTC, sc_priority = 10,
     description = ''Massive Machine Type Communication for IoT devices''\<rparr>"

text \<open>\<open>_init_default_slices\<close>: the three slices, then a zero counter for each name.\<close>

definition default_slices :: "string \<rightharpoonup> SliceConfig" where
  "default_slices = [''URLLC'' \<mapsto> urllc_config, ''eMBB'' \<mapsto> embb_config,
     ''mMTC'' \<mapsto> mmtc_config]"

definition init_default_slices :: "SliceManager \<Rightarrow> SliceManager" where
  "init_default_slices self =
     (let sl = (slices self)(''URLLC'' \<mapsto> urllc_config, ''eMBB'' \<mapsto> embb_config,
                 ''mMTC'' \<mapsto> mmtc_config)
      in self\<lparr>slices := sl,
              violation_counts := (\<lambda>k. if k \<in> dom sl then Some 0 else violation_counts self k)\<rparr>)"

text \<open>\<open>SliceManager.__init__\<close>\<close>

definition SliceManager_init :: SliceManager where
  "SliceManager_init =
     init_default_slices \<lparr>slices = Map.empty, violations = [], violation_counts = Map.empty\<rparr>"

text \<open>
  \<open>_get_severity\<close>. The ratio is the quotient of two doubles, rounded; \<open>0.5\<close> and
  \<open>2.0\<close> are doubles themselves.
\<close>

definition get_severity :: "real \<Rightarrow> real \<Rightarrow> string \<Rightarrow> string" where
  "get_severity expected actual_v requirement_type =
     (if expected = 0 then ''critical''
      else if requirement_type = ''min'' then
        (let ratio = fdiv actual_v expected
         in if ratio \<ge> lit_0_8 then ''minor''
            else if ratio \<ge> 5 / 10 then ''major''
            else ''critical'')
      else
        (let ratio = fdiv actual_v expected
         in if ratio \<le> lit_1_2 then ''minor''
            else if ratio \<le> 2 then ''major''
            else ''critical''))"

text \<open>\<open>metrics.get(key, 0)\<close>\<close>

definition metrics_get :: "(string \<rightharpoonup> real) \<Rightarrow> string \<Rightarrow> real" where
  "metrics_get metrics k = (case metrics k of None \<Rightarrow> 0 | Some v \<Rightarrow> v)"

text \<open>
  \<open>check_sla\<close>. The result is the returned dictionary (or the \<open>KeyError\<close> of
  \<open>self.violation_counts[slice_name] += ...\<close> for a name without a counter, raised after
  the ledger has been extended) together with the manager after the call.
\<close>

definition check_sla ::
  "(string \<Rightarrow> string) \<Rightarrow> SliceManager \<Rightarrow> string \<Rightarrow> (string \<rightharpoonup> real)
     \<Rightarrow> (py_error + sla_result) \<times> SliceManager" where
  "check_sla clock self sname metrics =
     (case slices self sname of
        None \<Rightarrow>
          (Inr \<lparr>status = UNKNOWN, res_violations = [],
                details = DetailError (''Unknown slice: '' @ sname)\<rparr>, self)
      | Some config \<Rightarrow>
          (let sl = sla config;
               bandwidth = metrics_get metrics ''bandwidth_mbps'';
               d1 = (''bandwidth'', \<lparr>required_key = ''required_min'',
                       required = min_bandwidth_mbps sl, actual = bandwidth,
                       compliant = (bandwidth \<ge> min_bandwidth_mbps sl)\<rparr>);
               v1 = (if bandwidth < min_bandwidth_mbps sl
                     then [\<lparr>slice_name = sname, violation_type = ''bandwidth'',
                             expected_value = min_bandwidth_mbps sl, actual_value = bandwidth,
                             timestamp = clock ''bandwidth'',
                             severity = get_severity (min_bandwidth_mbps sl) bandwidth ''min''\<rparr>]
                     else []);
               latency = metrics_get metrics ''latency_ms'';
               d2 = (''latency'', \<lparr>required_key = ''required_max'',
                       required = max_latency_ms sl, actual = latency,
                       compliant = (latency \<le> max_latency_ms sl)\<rparr>);
               v2 = (if latency > max_latency_ms sl
                     then [\<lparr>slice_name = sname, violation_type = ''latency'',
                             expected_value = max_latency_ms sl, actual_value = latency,
                             timestamp = clock ''latency'',
                             severity = get_severity (max_latency_ms sl) latency ''max''\<rparr>]
                     else []);
               jitter = metrics_get metrics ''jitter_ms'';
               d3 = (''jitter'', \<lparr>required_key = ''required_max'',
                       required = max_jitter_ms sl, actual = jitter,
                       compliant = (jitter \<le> max_jitter_ms sl)\<rparr>);
               v3 = (if jitter > max_jitter_ms sl
                     then [\<lparr>slice_name = sname, violation_type = ''jitter'',
                             expected_value = max_jitter_ms sl, actual_value = jitter,
                             timestamp = clock ''jitter'',
                             severity = get_severity (max_jitter_ms sl) jitter ''max''\<rparr>]
                     else []);
               packet_loss = metrics_get metrics ''packet_loss_pct'';
               d4 = (''packet_loss'', \<lparr>required_key = ''required_max'',
                       required = max_packet_loss_pct sl, actual = packet_loss,
                       compliant = (packet_loss \<le> max_packet_loss_pct sl)\<rparr>);
               v4 = (if packet_loss > max_packet_loss_pct sl
                     then [\<lparr>slice_name = sname, violation_type = ''packet_loss'',
                             expected_value = max_packet_loss_pct sl, actual_value = packet_loss,
                             timestamp = clock ''packet_loss'',
                             severity = get_severity (max_packet_loss_pct sl) packet_loss ''max''\<rparr>]
                     else []);
               vs = v1 @ v2 @ v3 @ v4;
               dt = DetailDims [d1, d2, d3, d4]
           in if vs \<noteq> [] then
                (let self1 = self\<lparr>violations := violations self @ vs\<rparr>
                 in case violation_counts self sname of
                      None \<Rightarrow> (Inl (KeyError sname), self1)
                    | Some c \<Rightarrow>
                        (Inr \<lparr>status = VIOLATED, res_violations = vs, details = dt\<rparr>,
                         self1\<lparr>violation_counts :=
                                 (violation_counts self)(sname \<mapsto> c + int (length vs))\<rparr>))
              else (Inr \<lparr>status = COMPLIANT, res_violations = [], details = dt\<rparr>, self)))"

text \<open>
  \<open>get_violation_summary\<close>. The loop over the ledger counts by type and by severity;
  \<open>summary['severity_distribution'][v.severity] += 1\<close> raises \<open>KeyError\<close> for a
  severity that is not one of the three keys.
\<close>

fun count_ledger ::
  "SLAViolation list \<Rightarrow> (string \<rightharpoonup> int) \<Rightarrow> (string \<rightharpoonup> int)
     \<Rightarrow> py_error + ((string \<rightharpoonup> int) \<times> (string \<rightharpoonup> int))" where
  "count_ledger [] by_type sev = Inr (by_type, sev)"
| "count_ledger (v # vs) by_type sev =
     (let vtype = violation_type v;
          by_type' = by_type(vtype \<mapsto> (case by_type vtype of None \<Rightarrow> 0 | Some n \<Rightarrow> n) + 1)
      in case sev (severity v) of
           None \<Rightarrow> Inl (KeyError (severity v))
         | Some n \<Rightarrow> count_ledger vs by_type' (sev(severity v \<mapsto> n + 1)))"

definition get_violation_summary :: "SliceManager \<Rightarrow> py_error + violation_summary" where
  "get_violation_summary self =
     (case count_ledger (violations self) Map.empty
             [''minor'' \<mapsto> 0, ''major'' \<mapsto> 0, ''critical'' \<mapsto> 0] of
        Inl e \<Rightarrow> Inl e
      | Inr (by_type, sev) \<Rightarrow>
          Inr \<lparr>total_violations = length (violations self),
               violations_by_slice = violation_counts self,
               violations_by_type = by_type,
               severity_distribution = sev\<rparr>)"

text \<open>\<open>clear_violations\<close>: empty ledger, every existing counter set to 0.\<close>

definition clear_violations :: "SliceManager \<Rightarrow> SliceManager" where
  "clear_violations self =
     self\<lparr>violations := [],
          violation_counts := (\<lambda>k. map_option (\<lambda>_. 0) (violation_counts self k))\<rparr>"

text \<open>
  The states a manager can be in: the class has no operation that changes the registry,
  so they are the states that \<open>check_sla\<close> and \<open>clear_violations\<close> reach from
  the constructor's.
\<close>

inductive reachable :: "SliceManager \<Rightarrow> bool" where
  r_init: "reachable SliceManager_init"
| r_check: "reachable s \<Longrightarrow> reachable (snd (check_sla clock s sname metrics))"
| r_clear: "reachable s \<Longrightarrow> reachable (clear_violations s)"

section \<open>Controller (src/controller.py)\<close>

text \<open>
  The OpenFlow messages the controller builds, with the fields the source sets. A message
  passed to \<open>datapath.send_msg\<close> is appended to the log \<open>sent\<close> of the controller
  state, with the id of the datapath it goes to. Switches are identified by their datapath
  id. The clock readings of \<open>time.time()\<close> are inputs. Logging and the export of the
  metrics to a file change nothing in the controller and are left out.
\<close>

datatype of_port = OFPP_CONTROLLER | OFPP_FLOOD | PortNo nat

datatype of_max_len = OFPCML_NO_BUFFER | OFPCML_MAX

datatype of_action = OFPActionOutput of_port of_max_len | OFPActionSetField_ip_dscp nat

datatype of_instruction =
    OFPInstructionMeter nat
  | OFPInstructionActions "of_action list"
  | OFPInstructionGotoTable nat

record of_match =
  in_port :: "nat option"
  eth_dst :: "string option"
  eth_type :: "nat option"
  ip_proto :: "nat option"
  udp_dst :: "nat option"

record flow_mod =
  fm_priority :: nat
  fm_match :: of_match
  fm_instructions :: "of_instruction list"
  fm_idle_timeout :: nat
  fm_hard_timeout :: nat
  fm_table_id :: nat

text \<open>A meter with the command ADD, the flag KBPS and one drop band.\<close>

record meter_mod =
  mm_meter_id :: nat
  mm_band_rate :: nat
  mm_band_burst_size :: nat

datatype of_msg = OFPFlowMod flow_mod | OFPMeterMod meter_mod

text \<open>One entry of \<open>SLICE_CONFIG\<close>, and the table itself in its order.\<close>

record slice_entry =
  se_name :: string
  se_dscp :: nat
  se_meter_id :: nat
  se_rate_kbps :: nat
  se_priority :: nat

definition SLICE_CONFIG :: "(nat \<times> slice_entry) list" where
  "SLICE_CONFIG =
     [(5001, \<lparr>se_name = ''URLLC'', se_dscp = 46, se_meter_id = 1, se_rate_kbps = 10000,
              se_priority = 100\<rparr>),
      (5002, \<lparr>se_name = ''eMBB'', se_dscp = 34, se_meter_id = 2, se_rate_kbps = 100000,
              se_priority = 50\<rparr>),
      (5003, \<lparr>se_name = ''mMTC'', se_dscp = 10, se_meter_id = 3, se_rate_kbps = 5000,
              se_priority = 10\<rparr>)]"

text \<open>The per-slice counters of a stats reply, and the per-slice entry of \<open>metrics\<close>.\<close>

record slice_counters =
  bytes :: int
  packets :: int

record slice_metrics =
  m_bytes :: int
  m_packets :: int
  bandwidth_mbps :: real

text \<open>One flow entry of the body of a stats reply.\<close>

record flow_stat =
  fs_match :: of_match
  byte_count :: int
  packet_count :: int

record SlicingController =
  datapaths :: "nat \<rightharpoonup> nat"
  metrics :: "string \<rightharpoonup> slice_metrics"
  prev_stats :: "(string \<times> slice_counters) list"
  prev_time :: real
  sent :: "(nat \<times> of_msg) list"

text \<open>\<open>SlicingController.__init__\<close>, at the clock reading \<open>now\<close>.\<close>

definition SlicingController_init :: "real \<Rightarrow> SlicingController" where
  "SlicingController_init now =
     \<lparr>datapaths = Map.empty,
      metrics = [''URLLC'' \<mapsto> \<lparr>m_bytes = 0, m_packets = 0, bandwidth_mbps = 0\<rparr>,
                 ''eMBB'' \<mapsto> \<lparr>m_bytes = 0, m_packets = 0, bandwidth_mbps = 0\<rparr>,
                 ''mMTC'' \<mapsto> \<lparr>m_bytes = 0, m_packets = 0, bandwidth_mbps = 0\<rparr>],
      prev_stats = [],
      prev_time = now,
      sent = []\<rparr>"

definition send_msg :: "nat \<Rightarrow> of_msg \<Rightarrow> SlicingController \<Rightarrow> SlicingController" where
  "send_msg dpid msg self = self\<lparr>sent := sent self @ [(dpid, msg)]\<rparr>"

definition empty_match :: of_match where
  "empty_match = \<lparr>in_port = None, eth_dst = None, eth_type = None, ip_proto = None,
     udp_dst = None\<rparr>"

text \<open>\<open>_add_flow\<close>\<close>

definition add_flow ::
  "nat \<Rightarrow> nat \<Rightarrow> of_match \<Rightarrow> of_action list \<Rightarrow> nat \<Rightarrow> nat \<Rightarrow> nat
     \<Rightarrow> SlicingController \<Rightarrow> SlicingController" where
  "add_flow dpid priority match actions idle_timeout hard_timeout table_id self =
     send_msg dpid
       (OFPFlowMod \<lparr>fm_priority = priority, fm_match = match,
          fm_instructions = [OFPInstructionActions actions],
          fm_idle_timeout = idle_timeout, fm_hard_timeout = hard_timeout,
          fm_table_id = table_id\<rparr>) self"

text \<open>\<open>_install_meters\<close>: the meter of one slice, and the loop over \<open>SLICE_CONFIG\<close>.\<close>

definition slice_meter :: "slice_entry \<Rightarrow> of_msg" where
  "slice_meter config =
     OFPMeterMod \<lparr>mm_meter_id = se_meter_id config, mm_band_rate = se_rate_kbps config,
        mm_band_burst_size = se_rate_kbps config div 10\<rparr>"

fun install_meters_loop ::
  "nat \<Rightarrow> (nat \<times> slice_entry) list \<Rightarrow> SlicingController \<Rightarrow> SlicingController" where
  "install_meters_loop dpid [] self = self"
| "install_meters_loop dpid ((port, config) # rest) self =
     install_meters_loop dpid rest (send_msg dpid (slice_meter config) self)"

definition install_meters :: "nat \<Rightarrow> SlicingController \<Rightarrow> SlicingController" where
  "install_meters dpid self = install_meters_loop dpid SLICE_CONFIG self"

text \<open>
  \<open>_install_slice_rules\<close>: the classification rule of one slice (IPv4, UDP, the
  slice's destination port; meter, DSCP, then table 1), and the loop over
  \<open>SLICE_CONFIG\<close>.
\<close>

definition slice_rule :: "nat \<Rightarrow> slice_entry \<Rightarrow> of_msg" where
  "slice_rule port config =
     OFPFlowMod \<lparr>fm_priority = se_priority config,
        fm_match = \<lparr>in_port = None, eth_dst = None, eth_type = Some 0x0800,
                     ip_proto = Some 17, udp_dst = Some port\<rparr>,
        fm_instructions = [OFPInstructionMeter (se_meter_id config),
                           OFPInstructionActions [OFPActionSetField_ip_dscp (se_dscp config)],
                           OFPInstructionGotoTable 1],
        fm_idle_timeout = 0, fm_hard_timeout = 0, fm_table_id = 0\<rparr>"

fun install_slice_rules_loop ::
  "nat \<Rightarrow> (nat \<times> slice_entry) list \<Rightarrow> SlicingController \<Rightarrow> SlicingController" where
  "install_slice_rules_loop dpid [] self = self"
| "install_slice_rules_loop dpid ((port, config) # rest) self =
     install_slice_rules_loop dpid rest (send_msg dpid (slice_rule port config) self)"

definition install_slice_rules :: "nat \<Rightarrow> SlicingController \<Rightarrow> SlicingController" where
  "install_slice_rules dpid self = install_slice_rules_loop dpid SLICE_CONFIG self"

text \<open>
  \<open>switch_features_handler\<close>: register the datapath, install the table-miss rule,
  the meters and the slice rules. Nothing is read from the controller state on the way.
\<close>

definition switch_features_handler :: "nat \<Rightarrow> SlicingController \<Rightarrow> SlicingController" where
  "switch_features_handler dpid self =
     (let self1 = self\<lparr>datapaths := (datapaths self)(dpid \<mapsto> dpid)\<rparr>;
          self2 = add_flow dpid 0 empty_match
                    [OFPActionOutput OFPP_CONTROLLER OFPCML_NO_BUFFER] 0 0 0 self1;
          self3 = install_meters dpid self2
      in install_slice_rules dpid self3)"

text \<open>
  \<open>flow_stats_reply_handler\<close>. First the per-slice aggregation of the body:
  \<open>slice_stats\<close> starts with a zero entry for each of the three slices, and every
  flow entry whose match has a \<open>udp_dst\<close> that is a key of \<open>SLICE_CONFIG\<close> is
  added to the entry of that slice. The names in \<open>SLICE_CONFIG\<close> are the three keys of
  \<open>slice_stats\<close>, so the update always finds its key.
\<close>

definition initial_slice_stats :: "(string \<times> slice_counters) list" where
  "initial_slice_stats =
     [(''URLLC'', \<lparr>bytes = 0, packets = 0\<rparr>),
      (''eMBB'', \<lparr>bytes = 0, packets = 0\<rparr>),
      (''mMTC'', \<lparr>bytes = 0, packets = 0\<rparr>)]"

fun add_counters ::
  "string \<Rightarrow> int \<Rightarrow> int \<Rightarrow> (string \<times> slice_counters) list \<Rightarrow> (string \<times> slice_counters) list" where
  "add_counters n b p [] = []"
| "add_counters n b p ((k, c) # rest) =
     (if k = n then (k, c\<lparr>bytes := bytes c + b, packets := packets c + p\<rparr>) # rest
      else (k, c) # add_counters n b p rest)"

fun aggregate_stats ::
  "flow_stat list \<Rightarrow> (string \<times> slice_counters) list \<Rightarrow> (string \<times> slice_counters) list" where
  "aggregate_stats [] slice_stats = slice_stats"
| "aggregate_stats (stat # body) slice_stats =
     (case udp_dst (fs_match stat) of
        None \<Rightarrow> aggregate_stats body slice_stats
      | Some port \<Rightarrow>
          (case map_of SLICE_CONFIG port of
             None \<Rightarrow> aggregate_stats body slice_stats
           | Some config \<Rightarrow>
               aggregate_stats body
                 (add_counters (se_name config) (byte_count stat) (packet_count stat)
                    slice_stats)))"

text \<open>
  The bandwidth in Mbps from the current and the previous byte count and the time between
  the two, as both \<open>flow_stats_reply_handler\<close> and the metrics collector compute it.
\<close>

definition calc_bandwidth_mbps :: "int \<Rightarrow> int \<Rightarrow> real \<Rightarrow> real" where
  "calc_bandwidth_mbps current_bytes prev_bytes time_delta =
     (if time_delta > 0 then
        (let byte_delta = current_bytes - prev_bytes
         in max 0 (fdiv (of_int (byte_delta * 8)) (fmul time_delta 1000000)))
      else 0)"

text \<open>
  Python's \<open>round(x, 3)\<close>: the exact value of the double \<open>x\<close> is rounded to the nearest
  multiple of 1/1000, ties to even, and the result is the double nearest to that.
\<close>

definition py_round3 :: "real \<Rightarrow> real" where
  "py_round3 x = to_double (of_int (round_half_even (x * 1000)) / 1000)"

text \<open>\<open>self.prev_stats.get(slice_name, {}).get('bytes', 0)\<close>\<close>

definition prev_bytes_of :: "(string \<times> slice_counters) list \<Rightarrow> string \<Rightarrow> int" where
  "prev_bytes_of prev n = (case map_of prev n of None \<Rightarrow> 0 | Some c \<Rightarrow> bytes c)"

text \<open>The loop over \<open>slice_stats.items()\<close> that rewrites \<open>self.metrics\<close>.\<close>

fun update_metrics ::
  "(string \<times> slice_counters) list \<Rightarrow> (string \<times> slice_counters) list \<Rightarrow> real
     \<Rightarrow> (string \<rightharpoonup> slice_metrics) \<Rightarrow> (string \<rightharpoonup> slice_metrics)" where
  "update_metrics [] prev time_delta ms = ms"
| "update_metrics ((sname, stats) # rest) prev time_delta ms =
     (let current_bytes = bytes stats;
          prev_bytes = prev_bytes_of prev sname;
          bw = calc_bandwidth_mbps current_bytes prev_bytes time_delta
      in update_metrics rest prev time_delta
           (ms(sname \<mapsto> \<lparr>m_bytes = current_bytes, m_packets = packets stats,
                            bandwidth_mbps = py_round3 bw\<rparr>)))"

text \<open>The time delta a reply handled at \<open>current_time\<close> uses.\<close>

definition time_delta_at :: "SlicingController \<Rightarrow> real \<Rightarrow> real" where
  "time_delta_at self current_time = fsub current_time (prev_time self)"

definition flow_stats_reply_handler ::
  "nat \<Rightarrow> flow_stat list \<Rightarrow> real \<Rightarrow> SlicingController \<Rightarrow> SlicingController" where
  "flow_stats_reply_handler dpid body current_time self =
     (let time_delta = time_delta_at self current_time;
          slice_stats = aggregate_stats body initial_slice_stats
      in self\<lparr>metrics := update_metrics slice_stats (prev_stats self) time_delta (metrics self),
              prev_stats := slice_stats,
              prev_time := current_time\<rparr>)"

text \<open>
  A history of stats replies (datapath id, body, clock reading at handling), handled in
  arrival order.
\<close>

fun run_replies ::
  "SlicingController \<Rightarrow> (nat \<times> flow_stat list \<times> real) list \<Rightarrow> SlicingController" where
  "run_replies self [] = self"
| "run_replies self ((dpid, body, t) # rest) =
     run_replies (flow_stats_reply_handler dpid body t self) rest"

text \<open>
  Following the specification's words, for comparison with the code: the time of the
  previous successful poll of one switch, and the most recent counter sample of one
  (slice, datapath) key, in a history of replies (oldest first).
\<close>

fun spec_last_poll_time :: "(nat \<times> flow_stat list \<times> real) list \<Rightarrow> nat \<Rightarrow> real option" where
  "spec_last_poll_time [] dp = None"
| "spec_last_poll_time ((d, body, t) # rest) dp =
     (case spec_last_poll_time rest dp of
        Some t' \<Rightarrow> Some t'
      | None \<Rightarrow> if d = dp then Some t else None)"

fun spec_latest_sample ::
  "(nat \<times> flow_stat list \<times> real) list \<Rightarrow> string \<Rightarrow> nat \<Rightarrow> slice_counters option" where
  "spec_latest_sample [] n dp = None"
| "spec_latest_sample ((d, body, t) # rest) n dp =
     (case spec_latest_sample rest n dp of
        Some c \<Rightarrow> Some c
      | None \<Rightarrow> if d = dp then map_of (aggregate_stats body initial_slice_stats) n else None)"

section \<open>Metrics collector (src/monitoring/metrics\_collector.py)\<close>

text \<open>
  \<open>_collect_controller_metrics\<close>. The HTTP response is an input: \<open>None\<close> when the
  request raises, otherwise the status code and the flow entries of datapath 1, each with
  the fields the loop reads (a field absent from the JSON reads as 0). \<open>clock\<close> gives the
  time stamp of the metric appended at each position of \<open>flow_metrics\<close>.
\<close>

record FlowMetric =
  fm_timestamp :: string
  fm_slice_name :: string
  fm_bandwidth_mbps :: real
  fm_packets :: int
  fm_bytes :: int
  fm_duration_sec :: int
  fm_flow_priority :: int

record flow_entry =
  fe_udp_dst :: "nat option"
  fe_byte_count :: int
  fe_packet_count :: int
  fe_duration_sec :: int
  fe_priority :: int

record MetricsCollector =
  flow_metrics :: "FlowMetric list"
  prev_flow_stats :: "string \<rightharpoonup> slice_counters"
  mc_prev_time :: real

definition PORT_TO_SLICE :: "nat \<rightharpoonup> string" where
  "PORT_TO_SLICE = [5001 \<mapsto> ''URLLC'', 5002 \<mapsto> ''eMBB'', 5003 \<mapsto> ''mMTC'']"

definition MetricsCollector_init :: "real \<Rightarrow> MetricsCollector" where
  "MetricsCollector_init now =
     \<lparr>flow_metrics = [], prev_flow_stats = Map.empty, mc_prev_time = now\<rparr>"

text \<open>The slice of a flow entry: \<open>udp_dst and udp_dst in self.PORT_TO_SLICE\<close>.\<close>

definition flow_slice :: "flow_entry \<Rightarrow> string option" where
  "flow_slice flow =
     (case fe_udp_dst flow of
        None \<Rightarrow> None
      | Some p \<Rightarrow> if p \<noteq> 0 then PORT_TO_SLICE p else None)"

fun collect_flows ::
  "(nat \<Rightarrow> string) \<Rightarrow> real \<Rightarrow> flow_entry list \<Rightarrow> MetricsCollector \<Rightarrow> MetricsCollector" where
  "collect_flows clock time_delta [] self = self"
| "collect_flows clock time_delta (flow # flows) self =
     (case flow_slice flow of
        None \<Rightarrow> collect_flows clock time_delta flows self
      | Some sname \<Rightarrow>
          (let prev_bytes = (case prev_flow_stats self sname of
                               None \<Rightarrow> 0 | Some c \<Rightarrow> bytes c);
               bw = calc_bandwidth_mbps (fe_byte_count flow) prev_bytes time_delta;
               metric = \<lparr>fm_timestamp = clock (length (flow_metrics self)),
                         fm_slice_name = sname,
                         fm_bandwidth_mbps = py_round3 bw,
                         fm_packets = fe_packet_count flow,
                         fm_bytes = fe_byte_count flow,
                         fm_duration_sec = fe_duration_sec flow,
                         fm_flow_priority = fe_priority flow\<rparr>
           in collect_flows clock time_delta flows
                (self\<lparr>flow_metrics := flow_metrics self @ [metric],
                       prev_flow_stats := (prev_flow_stats self)
                          (sname \<mapsto> \<lparr>bytes = fe_byte_count flow,
                                      packets = fe_packet_count flow\<rparr>)\<rparr>)))"

definition collect_controller_metrics ::
  "(nat \<Rightarrow> string) \<Rightarrow> (nat \<times> flow_entry list) option \<Rightarrow> real \<Rightarrow> MetricsCollector
     \<Rightarrow> MetricsCollector" where
  "collect_controller_metrics clock response current_time self =
     (case response of
        None \<Rightarrow> self
      | Some (status_code, flows) \<Rightarrow>
          if status_code \<noteq> 200 then self
          else (let time_delta = fsub current_time (mc_prev_time self)
                in (collect_flows clock time_delta flows self)\<lparr>mc_prev_time := current_time\<rparr>))"

text \<open>A history of collection cycles (response, clock reading), in order.\<close>

fun run_collections ::
  "(nat \<Rightarrow> string) \<Rightarrow> MetricsCollector \<Rightarrow> ((nat \<times> flow_entry list) option \<times> real) list
     \<Rightarrow> MetricsCollector" where
  "run_collections clock self [] = self"
| "run_collections clock self ((response, t) # rest) =
     run_collections clock (collect_controller_metrics clock response t self) rest"

section \<open>Example inputs\<close>

text \<open>
  A flow entry of a stats reply as the slice rules produce it (IPv4, UDP, destination
  port), with its counters; and a clock that always reads the same time stamp.
\<close>

definition udp_flow :: "nat \<Rightarrow> int \<Rightarrow> int \<Rightarrow> flow_stat" where
  "udp_flow port b p =
     \<lparr>fs_match = \<lparr>in_port = None, eth_dst = None, eth_type = Some 0x0800,
                   ip_proto = Some 17, udp_dst = Some port\<rparr>,
      byte_count = b, packet_count = p\<rparr>"

definition fixed_clock :: "nat \<Rightarrow> string" where
  "fixed_clock i = ''2024-01-01T00:00:00Z''"

section \<open>Properties of the float model\<close>

lemma floor_log2_lower:
  assumes "0 < x"
  shows "power_int 2 (floor_log2 x) \<le> x"
proof (cases "1 \<le> x")
  case True
  define n where "n = \<lfloor>x\<rfloor>"
  have n: "0 < n" using True by (simp add: n_def)
  have b: "1 \<le> bitlen n" using n by (simp add: bitlen_alt_def)
  have "(2::int) ^ nat (bitlen n - 1) \<le> n" using bitlen_bounds[OF n] by simp
  then have "real_of_int (2 ^ nat (bitlen n - 1)) \<le> real_of_int n" by linarith
  then have "(2::real) ^ nat (bitlen n - 1) \<le> real_of_int n" by simp
  also have "\<dots> \<le> x" by (simp add: n_def)
  finally show ?thesis
    using True b by (simp add: floor_log2_def n_def power_int_nonneg_exp)
next
  case False
  define m where "m = \<lceil>1 / x\<rceil>"
  define c where "c = bitlen (m - 1)"
  have y: "1 < 1 / x" using False assms by simp
  have m: "0 < m - 1" using y unfolding m_def by linarith
  have "m - 1 < 2 ^ nat c" using bitlen_bounds[OF m] by (simp add: c_def)
  then have "m \<le> 2 ^ nat c" by simp
  then have "real_of_int m \<le> real_of_int (2 ^ nat c)" by linarith
  then have "real_of_int m \<le> 2 ^ nat c" by simp
  moreover have "1 / x \<le> real_of_int m" by (simp add: m_def)
  ultimately have "1 / x \<le> 2 ^ nat c" by linarith
  then have "1 / 2 ^ nat c \<le> x" using assms
    by (simp add: field_simps)
  moreover have "0 \<le> c" by (simp add: c_def bitlen_nonneg)
  ultimately show ?thesis
    using False by (simp add: floor_log2_def m_def[symmetric] c_def[symmetric]
        power_int_minus_divide power_int_nonneg_exp)
qed

lemma floor_log2_upper:
  assumes "0 < x"
  shows "x < power_int 2 (floor_log2 x + 1)"
proof (cases "1 \<le> x")
  case True
  define n where "n = \<lfloor>x\<rfloor>"
  have n: "0 < n" using True by (simp add: n_def)
  have b: "1 \<le> bitlen n" using n by (simp add: bitlen_alt_def)
  have "n < 2 ^ nat (bitlen n)" using bitlen_bounds[OF n] by simp
  then have "n + 1 \<le> 2 ^ nat (bitlen n)" by simp
  then have "real_of_int (n + 1) \<le> real_of_int (2 ^ nat (bitlen n))" by linarith
  then have "real_of_int n + 1 \<le> 2 ^ nat (bitlen n)" by simp
  moreover have "x < real_of_int n + 1" by (simp add: n_def)
  ultimately have "x < 2 ^ nat (bitlen n)" by linarith
  then show ?thesis
    using True b by (simp add: floor_log2_def n_def power_int_nonneg_exp)
next
  case False
  define m where "m = \<lceil>1 / x\<rceil>"
  define c where "c = bitlen (m - 1)"
  have y: "1 < 1 / x" using False assms by simp
  have m: "0 < m - 1" using y unfolding m_def by linarith
  have c: "1 \<le> c" using m by (simp add: c_def bitlen_alt_def)
  have "2 ^ nat (c - 1) \<le> m - 1" using bitlen_bounds[OF m] by (simp add: c_def)
  then have "real_of_int (2 ^ nat (c - 1)) \<le> real_of_int (m - 1)" by linarith
  then have "2 ^ nat (c - 1) \<le> real_of_int m - 1" by simp
  moreover have "real_of_int m - 1 < 1 / x" unfolding m_def by linarith
  ultimately have "2 ^ nat (c - 1) < 1 / x" by linarith
  then have "x < 1 / 2 ^ nat (c - 1)" using assms by (simp add: field_simps)
  moreover have "power_int (2::real) (1 - c) = 1 / 2 ^ nat (c - 1)"
  proof -
    have "power_int (2::real) (1 - c) = power_int 2 (- (c - 1))" by simp
    also have "\<dots> = 1 / power_int 2 (c - 1)" by (rule power_int_minus_divide)
    also have "\<dots> = 1 / 2 ^ nat (c - 1)" using c by (simp add: power_int_nonneg_exp)
    finally show ?thesis .
  qed
  ultimately show ?thesis
    using False by (simp add: floor_log2_def m_def[symmetric] c_def[symmetric])
qed

lemma pow2_less_D:
  assumes "power_int (2::real) a < power_int 2 b"
  shows "a < b"
proof (rule ccontr)
  assume "\<not> a < b"
  then have "b \<le> a" by simp
  then have "power_int (2::real) b \<le> power_int 2 a"
    by (intro power_int_increasing) simp_all
  with assms show False by simp
qed

lemma floor_log2_unique:
  assumes "0 < x" and "power_int 2 k \<le> x" and "x < power_int 2 (k + 1)"
  shows "floor_log2 x = k"
proof -
  let ?l = "floor_log2 x"
  have "power_int (2::real) ?l < power_int 2 (k + 1)"
    using floor_log2_lower[OF assms(1)] assms(3) by linarith
  then have "?l < k + 1" by (rule pow2_less_D)
  moreover have "power_int (2::real) k < power_int 2 (?l + 1)"
    using floor_log2_upper[OF assms(1)] assms(2) by linarith
  then have "k < ?l + 1" by (rule pow2_less_D)
  ultimately show ?thesis by simp
qed

lemma round_half_even_of_int [simp]: "round_half_even (of_int k) = k"
  by (simp add: round_half_even_def)

lemma round_half_even_upper: "real_of_int (round_half_even y) \<le> y + 1 / 2"
  by (auto simp: round_half_even_def Let_def) linarith+

lemma round_half_even_lower: "y - 1 / 2 \<le> real_of_int (round_half_even y)"
  by (auto simp: round_half_even_def Let_def) linarith+

lemma round_half_even_le_int:
  assumes "y \<le> real_of_int k"
  shows "round_half_even y \<le> k"
proof -
  have "real_of_int (round_half_even y) \<le> real_of_int k + 1 / 2"
    using round_half_even_upper[of y] assms by linarith
  then have "real_of_int (round_half_even y) < real_of_int (k + 1)" by simp
  then have "round_half_even y < k + 1" by linarith
  then show ?thesis by simp
qed

lemma round_half_even_ge_int:
  assumes "real_of_int k \<le> y"
  shows "k \<le> round_half_even y"
proof -
  have "real_of_int k - 1 / 2 \<le> real_of_int (round_half_even y)"
    using round_half_even_lower[of y] assms by linarith
  then have "real_of_int (k - 1) < real_of_int (round_half_even y)" by simp
  then have "k - 1 < round_half_even y" by linarith
  then show ?thesis by simp
qed

lemma pow2_pos [simp]: "0 < power_int (2::real) e"
  by (simp add: zero_less_power_int)

lemma to_double_zero [simp]: "to_double 0 = 0"
  by (simp add: to_double_def)

lemma to_double_nonneg:
  assumes "0 \<le> x"
  shows "0 \<le> to_double x"
proof (cases "x = 0")
  case False
  have "real_of_int 0 \<le> x / power_int 2 (ulp_exponent x)" using assms by simp
  then have "0 \<le> round_half_even (x / power_int 2 (ulp_exponent x))"
    by (rule round_half_even_ge_int)
  then show ?thesis using False by (simp add: to_double_def Let_def)
qed simp

lemma to_double_nonpos:
  assumes "x \<le> 0"
  shows "to_double x \<le> 0"
proof (cases "x = 0")
  case False
  have "x / power_int 2 (ulp_exponent x) \<le> real_of_int 0"
    using assms by (simp add: divide_nonpos_pos)
  then have "round_half_even (x / power_int 2 (ulp_exponent x)) \<le> 0"
    by (rule round_half_even_le_int)
  then show ?thesis using False
    by (simp add: to_double_def Let_def mult_le_0_iff)
qed simp

lemma ulp_exponent_ge: "- 1074 \<le> ulp_exponent x"
  by (simp add: ulp_exponent_def)

lemma abs_less_ulp:
  assumes "x \<noteq> 0"
  shows "\<bar>x\<bar> < power_int 2 (ulp_exponent x + 53)"
proof -
  have "\<bar>x\<bar> < power_int 2 (floor_log2 \<bar>x\<bar> + 1)"
    using assms by (intro floor_log2_upper) simp
  also have "\<dots> \<le> power_int 2 (ulp_exponent x + 53)"
    by (intro power_int_increasing) (simp_all add: ulp_exponent_def)
  finally show ?thesis .
qed

lemma to_double_upper:
  assumes "0 < x"
  shows "to_double x \<le> power_int 2 (ulp_exponent x + 53)"
proof -
  let ?e = "ulp_exponent x"
  have "x < power_int 2 (?e + 53)" using abs_less_ulp[of x] assms by simp
  also have "\<dots> = power_int 2 ?e * 2 ^ 53" by (simp add: power_int_add)
  finally have "x / power_int 2 ?e < 2 ^ 53" by (simp add: field_simps)
  then have "x / power_int 2 ?e \<le> real_of_int (2 ^ 53)" by simp
  then have "round_half_even (x / power_int 2 ?e) \<le> 2 ^ 53"
    by (rule round_half_even_le_int)
  then have "real_of_int (round_half_even (x / power_int 2 ?e)) \<le> real_of_int (2 ^ 53)"
    by (simp only: of_int_le_iff)
  then have "real_of_int (round_half_even (x / power_int 2 ?e)) \<le> 2 ^ 53"
    by simp
  then have "real_of_int (round_half_even (x / power_int 2 ?e)) * power_int 2 ?e
               \<le> 2 ^ 53 * power_int 2 ?e"
    by (intro mult_right_mono) simp_all
  also have "\<dots> = power_int 2 (?e + 53)" by (simp add: power_int_add)
  finally show ?thesis using assms by (simp add: to_double_def Let_def)
qed

lemma to_double_grid:
  assumes "- int n \<le> ulp_exponent x"
  shows "\<exists>j. to_double x = real_of_int j / 2 ^ n"
proof (cases "x = 0")
  case True
  then have "to_double x = real_of_int 0 / 2 ^ n" by simp
  then show ?thesis ..
next
  case False
  let ?e = "ulp_exponent x"
  let ?k = "round_half_even (x / power_int 2 ?e)"
  have e: "0 \<le> ?e + int n" using assms by simp
  have "power_int (2::real) ?e = power_int 2 (?e + int n) * power_int 2 (- int n)"
    by (simp flip: power_int_add)
  also have "\<dots> = 2 ^ nat (?e + int n) / 2 ^ n"
    using e by (simp add: power_int_nonneg_exp power_int_minus_divide)
  finally have "to_double x = real_of_int (?k * 2 ^ nat (?e + int n)) / 2 ^ n"
    using False by (simp add: to_double_def Let_def)
  then show ?thesis ..
qed

lemma to_double_exact:
  assumes "x = real_of_int m * power_int 2 E" and "\<bar>m\<bar> < 2 ^ 53" and "- 1074 \<le> E"
  shows "to_double x = x"
proof (cases "x = 0")
  case False
  define e where "e = ulp_exponent x"
  define L where "L = floor_log2 \<bar>x\<bar>"
  have "real_of_int \<bar>m\<bar> < real_of_int (2 ^ 53)"
    using assms(2) by (simp only: of_int_less_iff)
  then have m: "real_of_int \<bar>m\<bar> < 2 ^ 53" by simp
  have "\<bar>x\<bar> = real_of_int \<bar>m\<bar> * power_int 2 E"
    by (simp add: assms(1) abs_mult)
  also have "\<dots> < 2 ^ 53 * power_int 2 E"
    using m by (intro mult_strict_right_mono) simp_all
  also have "\<dots> = power_int 2 (E + 53)" by (simp add: power_int_add)
  finally have up: "\<bar>x\<bar> < power_int 2 (E + 53)" .
  have "power_int 2 L \<le> \<bar>x\<bar>"
    unfolding L_def using False by (intro floor_log2_lower) simp
  with up have "power_int (2::real) L < power_int 2 (E + 53)" by linarith
  then have "L < E + 53" by (rule pow2_less_D)
  then have le: "e \<le> E" using assms(3) by (simp add: e_def ulp_exponent_def L_def)
  have "power_int (2::real) E = power_int 2 (E - e) * power_int 2 e"
    by (simp flip: power_int_add)
  also have "power_int (2::real) (E - e) = 2 ^ nat (E - e)"
    using le by (simp add: power_int_nonneg_exp)
  finally have pe: "power_int (2::real) E = 2 ^ nat (E - e) * power_int 2 e" .
  have "x / power_int 2 e = real_of_int m * 2 ^ nat (E - e) * power_int 2 e / power_int 2 e"
    unfolding assms(1) pe by simp
  also have "\<dots> = real_of_int (m * 2 ^ nat (E - e))" by simp
  finally have "round_half_even (x / power_int 2 e) = m * 2 ^ nat (E - e)"
    by (simp only: round_half_even_of_int)
  then have "to_double x = real_of_int (m * 2 ^ nat (E - e)) * power_int 2 e"
    using False by (simp add: to_double_def Let_def e_def)
  also have "\<dots> = real_of_int m * (2 ^ nat (E - e) * power_int 2 e)" by simp
  also have "\<dots> = x" unfolding pe[symmetric] assms(1) ..
  finally show ?thesis .
qed simp

lemma to_double_of_int:
  assumes "\<bar>k\<bar> < 2 ^ 53"
  shows "to_double (real_of_int k) = real_of_int k"
  by (rule to_double_exact[where m = k and E = 0]) (use assms in simp_all)

lemma to_double_eval:
  assumes "x \<noteq> 0" and "power_int 2 k \<le> \<bar>x\<bar>" and "\<bar>x\<bar> < power_int 2 (k + 1)"
    and "- 1022 \<le> k"
  shows "to_double x
           = real_of_int (round_half_even (x / power_int 2 (k - 52))) * power_int 2 (k - 52)"
proof -
  have "floor_log2 \<bar>x\<bar> = k"
    using assms by (intro floor_log2_unique) simp_all
  then have "ulp_exponent x = k - 52" using assms(4) by (simp add: ulp_exponent_def)
  then show ?thesis using assms(1) by (simp add: to_double_def Let_def)
qed

lemma lit_0_8_value: "lit_0_8 = 3602879701896397 / 4503599627370496"
proof -
  have "to_double (8 / 10)
          = real_of_int (round_half_even ((8 / 10) / power_int 2 (- 1 - 52))) * power_int 2 (- 1 - 52)"
    by (rule to_double_eval) simp_all
  also have "\<dots> = 3602879701896397 / 4503599627370496"
    by (simp add: round_half_even_def Let_def)
  finally show ?thesis unfolding lit_0_8_def lit_1_2_def lit_0_001_def .
qed

lemma lit_1_2_value: "lit_1_2 = 5404319552844595 / 4503599627370496"
proof -
  have "to_double (12 / 10)
          = real_of_int (round_half_even ((12 / 10) / power_int 2 (0 - 52))) * power_int 2 (0 - 52)"
    by (rule to_double_eval) simp_all
  also have "\<dots> = 5404319552844595 / 4503599627370496"
    by (simp add: round_half_even_def Let_def)
  finally show ?thesis unfolding lit_0_8_def lit_1_2_def lit_0_001_def .
qed

lemma lit_0_001_value: "lit_0_001 = 1152921504606847 / 1152921504606846976"
proof -
  have "to_double (1 / 1000)
          = real_of_int (round_half_even ((1 / 1000) / power_int 2 (- 10 - 52))) * power_int 2 (- 10 - 52)"
    by (rule to_double_eval) simp_all
  also have "\<dots> = 1152921504606847 / 1152921504606846976"
    by (simp add: round_half_even_def Let_def)
  finally show ?thesis unfolding lit_0_8_def lit_1_2_def lit_0_001_def .
qed

lemma to_double_numeral:
  assumes "(numeral n :: int) < 2 ^ 53"
  shows "to_double (numeral n) = numeral n"
proof -
  have "to_double (real_of_int (numeral n)) = real_of_int (numeral n)"
    by (rule to_double_of_int) (use assms in simp)
  then show ?thesis by simp
qed

lemma to_double_one [simp]: "to_double 1 = 1"
  using to_double_of_int[of 1] by simp

lemma fdiv_zero_left [simp]: "fdiv 0 b = 0"
  by (simp add: fdiv_def)

lemma to_double_ge_0_8:
  "8 / 10 \<le> to_double x \<longleftrightarrow> lit_0_8 \<le> to_double x"
proof
  assume "lit_0_8 \<le> to_double x"
  then show "8 / 10 \<le> to_double x" unfolding lit_0_8_value by simp
next
  assume a: "8 / 10 \<le> to_double x"
  have x: "0 < x"
  proof (rule ccontr)
    assume "\<not> 0 < x"
    then have "to_double x \<le> 0" by (intro to_double_nonpos) simp
    with a show False by simp
  qed
  have e: "- int 53 \<le> ulp_exponent x"
  proof (rule ccontr)
    assume "\<not> - int 53 \<le> ulp_exponent x"
    then have "ulp_exponent x + 53 \<le> - 1" by simp
    then have "power_int (2::real) (ulp_exponent x + 53) \<le> power_int 2 (- 1)"
      by (intro power_int_increasing) simp_all
    with to_double_upper[OF x] have "to_double x \<le> 1 / 2" by simp
    with a show False by simp
  qed
  obtain j where j: "to_double x = real_of_int j / 2 ^ 53"
    using to_double_grid[OF e] ..
  have "real_of_int 72057594037927936 \<le> real_of_int (10 * j)"
    using a unfolding j by simp
  then have "72057594037927936 \<le> 10 * j" by (simp only: of_int_le_iff)
  then have "7205759403792794 \<le> j" by simp
  then have "real_of_int 7205759403792794 \<le> real_of_int j" by (simp only: of_int_le_iff)
  then show "lit_0_8 \<le> to_double x"
    unfolding j lit_0_8_value by simp
qed

lemma to_double_le_1_2:
  "to_double x \<le> 12 / 10 \<longleftrightarrow> to_double x \<le> lit_1_2"
proof
  assume "to_double x \<le> lit_1_2"
  then show "to_double x \<le> 12 / 10" unfolding lit_1_2_value by simp
next
  assume a: "to_double x \<le> 12 / 10"
  show "to_double x \<le> lit_1_2"
  proof (cases "to_double x \<le> 1")
    case True
    then show ?thesis unfolding lit_1_2_value by simp
  next
    case False
    have x: "0 < x"
    proof (rule ccontr)
      assume "\<not> 0 < x"
      then have "to_double x \<le> 0" by (intro to_double_nonpos) simp
      with False show False by simp
    qed
    have e: "- int 52 \<le> ulp_exponent x"
    proof (rule ccontr)
      assume "\<not> - int 52 \<le> ulp_exponent x"
      then have "ulp_exponent x + 53 \<le> 0" by simp
      then have "power_int (2::real) (ulp_exponent x + 53) \<le> power_int 2 0"
        by (intro power_int_increasing) simp_all
      with to_double_upper[OF x] have "to_double x \<le> 1" by simp
      with False show False by simp
    qed
    obtain j where j: "to_double x = real_of_int j / 2 ^ 52"
      using to_double_grid[OF e] ..
    have "real_of_int (10 * j) \<le> real_of_int 54043195528445952"
      using a unfolding j by simp
    then have "10 * j \<le> 54043195528445952" by (simp only: of_int_le_iff)
    then have "j \<le> 5404319552844595" by simp
    then have "real_of_int j \<le> real_of_int 5404319552844595" by (simp only: of_int_le_iff)
    then show ?thesis unfolding j lit_1_2_value by simp
  qed
qed

lemma fdiv_2_5: "fdiv 2 5 < 1 / 2"
proof -
  have "to_double (2 / 5)
          = real_of_int (round_half_even ((2 / 5) / power_int 2 (- 2 - 52))) * power_int 2 (- 2 - 52)"
    by (rule to_double_eval) simp_all
  also have "\<dots> < 1 / 2" by (simp add: round_half_even_def Let_def)
  finally show ?thesis by (simp add: fdiv_def to_double_numeral)
qed

lemma round_half_even_numeral [simp]: "round_half_even (numeral n) = numeral n"
  using round_half_even_of_int[of "numeral n"] by simp

lemma round_half_even_zero [simp]: "round_half_even 0 = 0"
  using round_half_even_of_int[of 0] by simp

lemma round_half_even_nonneg: "0 \<le> y \<Longrightarrow> 0 \<le> round_half_even y"
  using round_half_even_ge_int[of 0 y] by simp

text \<open>A double is a fixed point of the rounding.\<close>

lemma to_double_idem: "to_double (to_double x) = to_double x"
proof (cases "x = 0")
  case True
  then show ?thesis by simp
next
  case False
  define e where "e = ulp_exponent x"
  define k where "k = round_half_even (x / power_int 2 e)"
  have td: "to_double x = real_of_int k * power_int 2 e"
    using False by (simp add: to_double_def Let_def e_def k_def)
  have e: "- 1074 \<le> e" unfolding e_def by (rule ulp_exponent_ge)
  have "\<bar>x\<bar> < power_int 2 (e + 53)" unfolding e_def using False by (rule abs_less_ulp)
  also have "\<dots> = power_int 2 e * 2 ^ 53" by (simp add: power_int_add)
  finally have "\<bar>x\<bar> / power_int 2 e < 2 ^ 53" by (simp add: field_simps)
  then have "\<bar>x / power_int 2 e\<bar> < 2 ^ 53" by simp
  then have b: "x / power_int 2 e \<le> 2 ^ 53" "- (2 ^ 53) \<le> x / power_int 2 e"
    by linarith+
  have "x / power_int 2 e \<le> real_of_int (2 ^ 53)" using b(1) by simp
  then have u: "k \<le> 2 ^ 53" unfolding k_def by (rule round_half_even_le_int)
  have "real_of_int (- (2 ^ 53)) \<le> x / power_int 2 e" using b(2) by simp
  then have l: "- (2 ^ 53) \<le> k" unfolding k_def by (rule round_half_even_ge_int)
  consider "\<bar>k\<bar> < 2 ^ 53" | "k = 2 ^ 53" | "k = - (2 ^ 53)" using u l by linarith
  then show ?thesis
  proof cases
    case 1
    show ?thesis by (rule to_double_exact[OF td 1 e])
  next
    case 2
    have "to_double x = real_of_int (2 ^ 52) * power_int 2 (e + 1)"
      unfolding td 2 by (simp add: power_int_add)
    then show ?thesis by (rule to_double_exact) (use e in simp_all)
  next
    case 3
    have "to_double x = real_of_int (- (2 ^ 52)) * power_int 2 (e + 1)"
      unfolding td 3 by (simp add: power_int_add)
    then show ?thesis by (rule to_double_exact) (use e in simp_all)
  qed
qed

subsection \<open>Inputs where the rounding decides\<close>

text \<open>
  The severity of 2.4 against the minimum 3.0 (the quotient is the double below 0.8), of
  14.4 against the maximum 12.0 (the quotient is the double 1.2), of 0.002 against the
  maximum 0.001 (the quotient is 2), and the bandwidth of 125 bytes in 2 seconds (the double
  nearest to 0.0005 is above it, and rounds to 0.001).
\<close>

lemma to_double_dyadic:
  assumes "\<bar>m\<bar> < 2 ^ 53" and "n \<le> 1074"
  shows "to_double (real_of_int m / 2 ^ n) = real_of_int m / 2 ^ n"
proof (rule to_double_exact[where m = m and E = "- int n"])
  show "real_of_int m / 2 ^ n = real_of_int m * power_int 2 (- int n)"
    by (simp add: power_int_minus_divide)
qed (use assms in simp_all)

lemma double_2_4: "to_double (24 / 10) = 5404319552844595 / 2 ^ 51"
proof -
  have "to_double (24 / 10)
          = real_of_int (round_half_even ((24 / 10) / power_int 2 (1 - 52))) * power_int 2 (1 - 52)"
    by (rule to_double_eval) simp_all
  also have "\<dots> = 5404319552844595 / 2 ^ 51"
    by (simp add: round_half_even_def Let_def)
  finally show ?thesis .
qed

lemma fdiv_2_4_3: "fdiv (to_double (24 / 10)) 3 = 7205759403792793 / 2 ^ 53"
proof -
  have a: "to_double (5404319552844595 / 2 ^ 51) = 5404319552844595 / 2 ^ 51"
    using to_double_dyadic[of 5404319552844595 51] by simp
  have "to_double ((5404319552844595 / 2 ^ 51) / 3)
          = real_of_int (round_half_even (((5404319552844595 / 2 ^ 51) / 3) / power_int 2 (- 1 - 52)))
              * power_int 2 (- 1 - 52)"
    by (rule to_double_eval) simp_all
  also have "\<dots> = 7205759403792793 / 2 ^ 53"
    by (simp add: round_half_even_def Let_def)
  finally show ?thesis
    unfolding double_2_4 fdiv_def a by (simp add: to_double_numeral)
qed

lemma get_severity_2_4_of_3: "get_severity 3 (to_double (24 / 10)) ''min'' = ''major''"
  unfolding get_severity_def Let_def fdiv_2_4_3 lit_0_8_value by simp

lemma double_14_4: "to_double (144 / 10) = 8106479329266893 / 2 ^ 49"
proof -
  have "to_double (144 / 10)
          = real_of_int (round_half_even ((144 / 10) / power_int 2 (3 - 52))) * power_int 2 (3 - 52)"
    by (rule to_double_eval) simp_all
  also have "\<dots> = 8106479329266893 / 2 ^ 49"
    by (simp add: round_half_even_def Let_def)
  finally show ?thesis .
qed

lemma fdiv_14_4_12: "fdiv (to_double (144 / 10)) 12 = lit_1_2"
proof -
  have a: "to_double (8106479329266893 / 2 ^ 49) = 8106479329266893 / 2 ^ 49"
    using to_double_dyadic[of 8106479329266893 49] by simp
  have "to_double ((8106479329266893 / 2 ^ 49) / 12)
          = real_of_int (round_half_even (((8106479329266893 / 2 ^ 49) / 12) / power_int 2 (0 - 52)))
              * power_int 2 (0 - 52)"
    by (rule to_double_eval) simp_all
  also have "\<dots> = 5404319552844595 / 4503599627370496"
    by (simp add: round_half_even_def Let_def)
  finally show ?thesis
    unfolding double_14_4 fdiv_def a lit_1_2_value by (simp add: to_double_numeral)
qed

lemma get_severity_14_4_of_12: "get_severity 12 (to_double (144 / 10)) ''max'' = ''minor''"
  unfolding get_severity_def Let_def fdiv_14_4_12 by simp

lemma double_0_002: "to_double (2 / 1000) = 1152921504606847 / 2 ^ 59"
proof -
  have "to_double (2 / 1000)
          = real_of_int (round_half_even ((2 / 1000) / power_int 2 (- 9 - 52))) * power_int 2 (- 9 - 52)"
    by (rule to_double_eval) simp_all
  also have "\<dots> = 1152921504606847 / 2 ^ 59"
    by (simp add: round_half_even_def Let_def)
  finally show ?thesis .
qed

lemma fdiv_0_002_0_001: "fdiv (to_double (2 / 1000)) lit_0_001 = 2"
proof -
  have a: "to_double (1152921504606847 / 2 ^ 59) = 1152921504606847 / 2 ^ 59"
    using to_double_dyadic[of 1152921504606847 59] by simp
  have b: "to_double (1152921504606847 / 2 ^ 60) = 1152921504606847 / 2 ^ 60"
    using to_double_dyadic[of 1152921504606847 60] by simp
  have v: "lit_0_001 = 1152921504606847 / 2 ^ 60"
    unfolding lit_0_001_value by simp
  show ?thesis
    unfolding double_0_002 v fdiv_def a b by (simp add: to_double_numeral)
qed

lemma get_severity_0_002_of_0_001:
  "get_severity lit_0_001 (to_double (2 / 1000)) ''max'' = ''major''"
proof -
  have "lit_0_001 \<noteq> 0" unfolding lit_0_001_value by simp
  then show ?thesis
    unfolding get_severity_def Let_def fdiv_0_002_0_001 lit_1_2_value by simp
qed

lemma calc_bandwidth_mbps_125_bytes: "calc_bandwidth_mbps 125 0 2 = 1152921504606847 / 2 ^ 61"
proof -
  have "to_double (1000 / 2000000)
          = real_of_int (round_half_even ((1000 / 2000000) / power_int 2 (- 11 - 52)))
              * power_int 2 (- 11 - 52)"
    by (rule to_double_eval) simp_all
  also have "\<dots> = 1152921504606847 / 2 ^ 61"
    by (simp add: round_half_even_def Let_def)
  finally show ?thesis
    by (simp add: calc_bandwidth_mbps_def Let_def fdiv_def fmul_def to_double_numeral)
qed

lemma py_round3_125_bytes: "py_round3 (calc_bandwidth_mbps 125 0 2) = lit_0_001"
proof -
  have "round_half_even (1152921504606847 / 2 ^ 61 * 1000) = 1"
    by (simp add: round_half_even_def Let_def)
  then show ?thesis
    unfolding calc_bandwidth_mbps_125_bytes py_round3_def lit_0_001_def by simp
qed

section \<open>Properties of the slice manager\<close>

subsection \<open>The registry is fixed\<close>

lemma default_slices_simps:
  "default_slices ''URLLC'' = Some urllc_config"
  "default_slices ''eMBB'' = Some embb_config"
  "default_slices ''mMTC'' = Some mmtc_config"
  by (simp_all add: default_slices_def)

lemma default_slices_cases:
  "default_slices n = Some cfg \<Longrightarrow>
     (n = ''URLLC'' \<and> cfg = urllc_config) \<or> (n = ''eMBB'' \<and> cfg = embb_config)
       \<or> (n = ''mMTC'' \<and> cfg = mmtc_config)"
  by (auto simp: default_slices_def split: if_splits)

lemma init_slices: "slices SliceManager_init = default_slices"
  by (simp add: SliceManager_init_def init_default_slices_def default_slices_def Let_def)

lemma init_counts:
  "violation_counts SliceManager_init = (\<lambda>k. if k \<in> dom default_slices then Some 0 else None)"
  by (rule ext) (simp add: SliceManager_init_def init_default_slices_def default_slices_def Let_def)

lemma check_sla_slices: "slices (snd (check_sla clock s n m)) = slices s"
  by (simp add: check_sla_def Let_def split: option.splits)

lemma check_sla_counts_dom:
  "dom (violation_counts (snd (check_sla clock s n m))) = dom (violation_counts s)"
  by (auto simp: check_sla_def Let_def split: option.splits if_splits)

lemma clear_slices: "slices (clear_violations s) = slices s"
  by (simp add: clear_violations_def)

lemma clear_counts_dom: "dom (violation_counts (clear_violations s)) = dom (violation_counts s)"
  by (auto simp: clear_violations_def dom_def)

lemma reachable_registry:
  "reachable s \<Longrightarrow> slices s = default_slices \<and> dom (violation_counts s) = dom default_slices"
proof (induction rule: reachable.induct)
  case r_init
  show ?case by (auto simp: init_slices init_counts split: if_splits)
next
  case (r_check s clock sname metrics)
  then show ?case by (simp add: check_sla_slices check_sla_counts_dom)
next
  case (r_clear s)
  then show ?case by (simp add: clear_slices clear_counts_dom)
qed

lemma reachable_counter:
  assumes "reachable s" and "slices s n = Some cfg"
  shows "\<exists>c. violation_counts s n = Some c"
proof -
  from assms have "n \<in> dom (violation_counts s)"
    using reachable_registry[OF assms(1)] by auto
  then show ?thesis by auto
qed

subsection \<open>The URLLC scenario\<close>

lemma sla_urllc:
  "min_bandwidth_mbps (sla urllc_config) = 5" "max_latency_ms (sla urllc_config) = 5"
  "max_jitter_ms (sla urllc_config) = 1" "max_packet_loss_pct (sla urllc_config) = lit_0_001"
  by (simp_all add: urllc_config_def)

lemma check_sla_urllc_bad:
  assumes "slices s ''URLLC'' = Some urllc_config" and "violation_counts s ''URLLC'' = Some c"
  shows "\<exists>r. fst (check_sla clock s ''URLLC''
                [''bandwidth_mbps'' \<mapsto> 2, ''latency_ms'' \<mapsto> 10, ''jitter_ms'' \<mapsto> 2,
                 ''packet_loss_pct'' \<mapsto> 0]) = Inr r
           \<and> status r = VIOLATED
           \<and> length (res_violations r) = 3
           \<and> map violation_type (res_violations r) = [''bandwidth'', ''latency'', ''jitter'']
           \<and> ''packet_loss'' \<notin> set (map violation_type (res_violations r))"
  using assms by (simp add: check_sla_def Let_def metrics_get_def sla_urllc lit_0_001_value)

text \<open>
  Claim C1. For the slice URLLC (thresholds 5 Mbps, 5 ms, 1 ms, 0.001 percent), in every
  state of the manager, \<open>check_sla\<close> on the metrics bandwidth 2, latency 10,
  jitter 2, packet loss 0 returns the status violated with exactly three violations, of the
  types bandwidth, latency and jitter in this order, and none for packet loss.
\<close>

theorem check_sla_urllc_scenario:
  assumes "reachable s"
  shows "\<exists>r. fst (check_sla clock s ''URLLC''
                [''bandwidth_mbps'' \<mapsto> 2, ''latency_ms'' \<mapsto> 10, ''jitter_ms'' \<mapsto> 2,
                 ''packet_loss_pct'' \<mapsto> 0]) = Inr r
           \<and> status r = VIOLATED
           \<and> length (res_violations r) = 3
           \<and> map violation_type (res_violations r) = [''bandwidth'', ''latency'', ''jitter'']
           \<and> ''packet_loss'' \<notin> set (map violation_type (res_violations r))"
proof -
  have sl: "slices s ''URLLC'' = Some urllc_config"
    using reachable_registry[OF assms] by (simp add: default_slices_simps)
  obtain c where c: "violation_counts s ''URLLC'' = Some c"
    using reachable_counter[OF assms sl] ..
  show ?thesis by (rule check_sla_urllc_bad[OF sl c])
qed

theorem check_sla_urllc_scenario_witness:
  "reachable SliceManager_init \<and>
   (\<exists>r. fst (check_sla (\<lambda>_. ''2024-01-01T00:00:00'') SliceManager_init ''URLLC''
                [''bandwidth_mbps'' \<mapsto> 2, ''latency_ms'' \<mapsto> 10, ''jitter_ms'' \<mapsto> 2,
                 ''packet_loss_pct'' \<mapsto> 0]) = Inr r
           \<and> status r = VIOLATED
           \<and> length (res_violations r) = 3
           \<and> map violation_type (res_violations r) = [''bandwidth'', ''latency'', ''jitter'']
           \<and> ''packet_loss'' \<notin> set (map violation_type (res_violations r)))"
  by (rule conjI[OF r_init check_sla_urllc_scenario[OF r_init]])

subsection \<open>Severity\<close>

lemma get_severity_min:
  assumes "e \<noteq> 0"
  shows "(8 / 10 \<le> fdiv a e \<longrightarrow> get_severity e a ''min'' = ''minor'')
       \<and> (5 / 10 \<le> fdiv a e \<and> fdiv a e < 8 / 10 \<longrightarrow> get_severity e a ''min'' = ''major'')
       \<and> (fdiv a e < 5 / 10 \<longrightarrow> get_severity e a ''min'' = ''critical'')"
proof -
  have eq: "8 / 10 \<le> fdiv a e \<longleftrightarrow> lit_0_8 \<le> fdiv a e"
    unfolding fdiv_def by (rule to_double_ge_0_8)
  have "fdiv a e < 5 / 10 \<Longrightarrow> \<not> lit_0_8 \<le> fdiv a e"
    unfolding lit_0_8_value by simp
  then show ?thesis
    using assms eq by (auto simp: get_severity_def Let_def)
qed

lemma get_severity_max:
  assumes "e \<noteq> 0"
  shows "(fdiv a e \<le> 12 / 10 \<longrightarrow> get_severity e a ''max'' = ''minor'')
       \<and> (12 / 10 < fdiv a e \<and> fdiv a e \<le> 2 \<longrightarrow> get_severity e a ''max'' = ''major'')
       \<and> (2 < fdiv a e \<longrightarrow> get_severity e a ''max'' = ''critical'')"
proof -
  have eq: "fdiv a e \<le> 12 / 10 \<longleftrightarrow> fdiv a e \<le> lit_1_2"
    unfolding fdiv_def by (rule to_double_le_1_2)
  have "2 < fdiv a e \<Longrightarrow> \<not> fdiv a e \<le> lit_1_2"
    unfolding lit_1_2_value by simp
  then show ?thesis
    using assms eq by (auto simp: get_severity_def Let_def)
qed

lemma get_severity_zero: "get_severity 0 a rt = ''critical''"
  by (simp add: get_severity_def)

lemma check_sla_violation_severity:
  assumes "fst (check_sla clock s n m) = Inr r" and "v \<in> set (res_violations r)"
  shows "severity v = get_severity (expected_value v) (actual_value v)
           (if violation_type v = ''bandwidth'' then ''min'' else ''max'')"
  using assms
  by (auto simp: check_sla_def Let_def split: option.splits if_splits)

text \<open>
  Claim C2. Every violation that \<open>check_sla\<close> returns carries the severity of the
  ratio test on \<open>ratio = actual / expected\<close>, the quotient as the code computes it
  (\<open>fdiv\<close>, a double); the bounds 0.8, 0.5, 1.2 and 2.0 are the decimal numbers. With \<open>expected > 0\<close>: for the
  minimum-bound dimension (bandwidth), minor when the ratio is at least 0.8, major when it is
  at least 0.5 and below 0.8, critical below 0.5; for a maximum-bound dimension (latency,
  jitter, packet loss), minor when the ratio is at most 1.2, major above 1.2 and up to 2.0,
  critical above 2.0. With \<open>expected = 0\<close> the severity is critical whatever the
  actual value.
\<close>

theorem severity_ratio_test:
  assumes "fst (check_sla clock s n m) = Inr r" and "v \<in> set (res_violations r)"
  shows "(0 < expected_value v \<and> violation_type v = ''bandwidth'' \<longrightarrow>
            (8 / 10 \<le> fdiv (actual_value v) (expected_value v) \<longrightarrow> severity v = ''minor'')
          \<and> (5 / 10 \<le> fdiv (actual_value v) (expected_value v)
               \<and> fdiv (actual_value v) (expected_value v) < 8 / 10 \<longrightarrow> severity v = ''major'')
          \<and> (fdiv (actual_value v) (expected_value v) < 5 / 10 \<longrightarrow> severity v = ''critical''))
       \<and> (0 < expected_value v \<and> violation_type v \<noteq> ''bandwidth'' \<longrightarrow>
            (fdiv (actual_value v) (expected_value v) \<le> 12 / 10 \<longrightarrow> severity v = ''minor'')
          \<and> (12 / 10 < fdiv (actual_value v) (expected_value v)
               \<and> fdiv (actual_value v) (expected_value v) \<le> 2 \<longrightarrow> severity v = ''major'')
          \<and> (2 < fdiv (actual_value v) (expected_value v) \<longrightarrow> severity v = ''critical''))
       \<and> (expected_value v = 0 \<longrightarrow> severity v = ''critical'')"
proof -
  note sev = check_sla_violation_severity[OF assms]
  show ?thesis
  proof (intro conjI impI)
    assume "expected_value v = 0"
    then show "severity v = ''critical''" using sev by (simp add: get_severity_zero)
  qed (use sev get_severity_min[of "expected_value v" "actual_value v"]
           get_severity_max[of "expected_value v" "actual_value v"] in \<open>simp_all\<close>)
qed


lemma init_lookup:
  "slices SliceManager_init ''URLLC'' = Some urllc_config"
  "violation_counts SliceManager_init ''URLLC'' = Some 0"
  by (simp_all add: init_slices init_counts default_slices_simps domI)

theorem severity_ratio_test_witness:
  "\<exists>r v. fst (check_sla (\<lambda>_. ''2024-01-01T00:00:00'') SliceManager_init ''URLLC''
               [''bandwidth_mbps'' \<mapsto> 2]) = Inr r
         \<and> v \<in> set (res_violations r) \<and> violation_type v = ''bandwidth''
         \<and> expected_value v = 5 \<and> actual_value v = 2 \<and> severity v = ''critical''"
proof -
  let ?res = "fst (check_sla (\<lambda>_. ''2024-01-01T00:00:00'') SliceManager_init ''URLLC''
               [''bandwidth_mbps'' \<mapsto> 2])"
  have "\<exists>r v. ?res = Inr r \<and> v \<in> set (res_violations r) \<and> violation_type v = ''bandwidth''
         \<and> expected_value v = 5 \<and> actual_value v = 2"
    by (simp add: check_sla_def Let_def metrics_get_def init_lookup sla_urllc lit_0_001_value)
  then obtain r v where rv: "?res = Inr r" "v \<in> set (res_violations r)"
      "violation_type v = ''bandwidth''" "expected_value v = 5" "actual_value v = 2"
    by blast
  have "severity v = ''critical''"
    using severity_ratio_test[OF rv(1) rv(2)] rv(3,4,5) fdiv_2_5 by simp
  with rv show ?thesis by blast
qed

subsection \<open>Unknown slices and the bandwidth boundary\<close>

text \<open>
  Claim C7. \<open>check_sla\<close> on a slice name that is not in the registry returns the
  status unknown, which is not the status compliant, with an empty list of violations, and
  leaves the manager as it was: the ledger and every counter are unchanged.
\<close>

theorem check_sla_unknown_slice:
  assumes "slices s n = None"
  shows "\<exists>r. fst (check_sla clock s n m) = Inr r \<and> status r = UNKNOWN
           \<and> res_violations r = [] \<and> status r \<noteq> COMPLIANT
           \<and> snd (check_sla clock s n m) = s
           \<and> violations (snd (check_sla clock s n m)) = violations s
           \<and> violation_counts (snd (check_sla clock s n m)) = violation_counts s"
  using assms by (simp add: check_sla_def)

theorem check_sla_unknown_slice_witness:
  "slices SliceManager_init ''gaming'' = None \<and>
   (\<exists>r. fst (check_sla (\<lambda>_. ''2024-01-01T00:00:00'') SliceManager_init ''gaming''
              [''bandwidth_mbps'' \<mapsto> 2]) = Inr r \<and> status r = UNKNOWN
           \<and> res_violations r = [] \<and> status r \<noteq> COMPLIANT
           \<and> snd (check_sla (\<lambda>_. ''2024-01-01T00:00:00'') SliceManager_init ''gaming''
              [''bandwidth_mbps'' \<mapsto> 2]) = SliceManager_init
           \<and> violations (snd (check_sla (\<lambda>_. ''2024-01-01T00:00:00'') SliceManager_init ''gaming''
              [''bandwidth_mbps'' \<mapsto> 2])) = violations SliceManager_init
           \<and> violation_counts (snd (check_sla (\<lambda>_. ''2024-01-01T00:00:00'') SliceManager_init
              ''gaming'' [''bandwidth_mbps'' \<mapsto> 2])) = violation_counts SliceManager_init)"
proof -
  have h: "slices SliceManager_init ''gaming'' = None"
    by (simp add: init_slices default_slices_def)
  show ?thesis using h check_sla_unknown_slice[OF h] by blast
qed

lemma check_sla_ledger:
  assumes "slices s n = Some cfg"
  shows "\<exists>vs. violations (snd (check_sla clock s n m)) = violations s @ vs
          \<and> (\<forall>r. fst (check_sla clock s n m) = Inr r \<longrightarrow> res_violations r = vs)
          \<and> (''bandwidth'' \<in> violation_type ` set vs
               \<longleftrightarrow> metrics_get m ''bandwidth_mbps'' < min_bandwidth_mbps (sla cfg))"
  using assms
  by (auto simp: check_sla_def Let_def split: option.splits)

text \<open>
  Claim C8. For the minimum-bound dimension (bandwidth) of a registered slice, a measured
  value equal to the threshold records no bandwidth violation, and a measured value strictly
  below the threshold records one. \<open>vs\<close> is what the call appends to the ledger,
  and what it returns as its violations when it returns.
\<close>

theorem bandwidth_boundary_inclusive:
  assumes "slices s n = Some cfg"
  shows "\<exists>vs. violations (snd (check_sla clock s n m)) = violations s @ vs
          \<and> (\<forall>r. fst (check_sla clock s n m) = Inr r \<longrightarrow> res_violations r = vs)
          \<and> (metrics_get m ''bandwidth_mbps'' = min_bandwidth_mbps (sla cfg)
               \<longrightarrow> ''bandwidth'' \<notin> violation_type ` set vs)
          \<and> (metrics_get m ''bandwidth_mbps'' < min_bandwidth_mbps (sla cfg)
               \<longrightarrow> ''bandwidth'' \<in> violation_type ` set vs)"
proof -
  obtain vs where vs: "violations (snd (check_sla clock s n m)) = violations s @ vs"
      "\<forall>r. fst (check_sla clock s n m) = Inr r \<longrightarrow> res_violations r = vs"
      "''bandwidth'' \<in> violation_type ` set vs
         \<longleftrightarrow> metrics_get m ''bandwidth_mbps'' < min_bandwidth_mbps (sla cfg)"
    using check_sla_ledger[OF assms] by blast
  show ?thesis
  proof (intro exI[of _ vs] conjI impI)
    assume "metrics_get m ''bandwidth_mbps'' = min_bandwidth_mbps (sla cfg)"
    then show "''bandwidth'' \<notin> violation_type ` set vs" using vs(3) by simp
  next
    assume "metrics_get m ''bandwidth_mbps'' < min_bandwidth_mbps (sla cfg)"
    then show "''bandwidth'' \<in> violation_type ` set vs" using vs(3) by simp
  qed (use vs in simp_all)
qed

theorem bandwidth_boundary_inclusive_witness:
  "slices SliceManager_init ''URLLC'' = Some urllc_config
   \<and> (\<exists>vs. violations (snd (check_sla (\<lambda>_. ''2024-01-01T00:00:00'') SliceManager_init
               ''URLLC'' [''bandwidth_mbps'' \<mapsto> 5])) = violations SliceManager_init @ vs
          \<and> ''bandwidth'' \<notin> violation_type ` set vs)
   \<and> (\<exists>vs. violations (snd (check_sla (\<lambda>_. ''2024-01-01T00:00:00'') SliceManager_init
               ''URLLC'' [''bandwidth_mbps'' \<mapsto> 499 / 100])) = violations SliceManager_init @ vs
          \<and> ''bandwidth'' \<in> violation_type ` set vs)"
proof -
  note sl = init_lookup(1)
  have eq: "metrics_get [''bandwidth_mbps'' \<mapsto> 5] ''bandwidth_mbps''
              = min_bandwidth_mbps (sla urllc_config)"
    by (simp add: metrics_get_def sla_urllc)
  have lt: "metrics_get [''bandwidth_mbps'' \<mapsto> 499 / 100] ''bandwidth_mbps''
              < min_bandwidth_mbps (sla urllc_config)"
    by (simp add: metrics_get_def sla_urllc)
  have a: "\<exists>vs. violations (snd (check_sla (\<lambda>_. ''2024-01-01T00:00:00'') SliceManager_init
               ''URLLC'' [''bandwidth_mbps'' \<mapsto> 5])) = violations SliceManager_init @ vs
          \<and> ''bandwidth'' \<notin> violation_type ` set vs"
    using bandwidth_boundary_inclusive[OF sl, of "\<lambda>_. ''2024-01-01T00:00:00''"
        "[''bandwidth_mbps'' \<mapsto> 5]"] eq by blast
  have b: "\<exists>vs. violations (snd (check_sla (\<lambda>_. ''2024-01-01T00:00:00'') SliceManager_init
               ''URLLC'' [''bandwidth_mbps'' \<mapsto> 499 / 100])) = violations SliceManager_init @ vs
          \<and> ''bandwidth'' \<in> violation_type ` set vs"
    using bandwidth_boundary_inclusive[OF sl, of "\<lambda>_. ''2024-01-01T00:00:00''"
        "[''bandwidth_mbps'' \<mapsto> 499 / 100]"] lt by blast
  from sl a b show ?thesis by (intro conjI)
qed

subsection \<open>Clearing the ledger\<close>

lemma clear_ledger: "violations (clear_violations s) = []"
  by (simp add: clear_violations_def)

lemma clear_counts:
  "violation_counts (clear_violations s) n = Some c \<Longrightarrow> c = 0"
  by (auto simp: clear_violations_def)

text \<open>
  Claim C9. In every state of the manager, \<open>get_violation_summary\<close> after
  \<open>clear_violations\<close> returns a summary whose total is 0 and in which every slice
  that had a counter has the count 0.
\<close>

theorem clear_then_summary:
  "\<exists>summ. get_violation_summary (clear_violations s) = Inr summ
      \<and> total_violations summ = 0
      \<and> dom (violations_by_slice summ) = dom (violation_counts s)
      \<and> (\<forall>n c. violations_by_slice summ n = Some c \<longrightarrow> c = 0)"
  by (auto simp: get_violation_summary_def clear_ledger clear_counts_dom dest: clear_counts)

theorem clear_then_summary_witness:
  "\<exists>summ. get_violation_summary (clear_violations
        (snd (check_sla (\<lambda>_. ''2024-01-01T00:00:00'') SliceManager_init ''URLLC''
               [''bandwidth_mbps'' \<mapsto> 2]))) = Inr summ
      \<and> total_violations summ = 0
      \<and> violations_by_slice summ ''URLLC'' = Some 0"
proof -
  let ?s = "snd (check_sla (\<lambda>_. ''2024-01-01T00:00:00'') SliceManager_init ''URLLC''
               [''bandwidth_mbps'' \<mapsto> 2])"
  obtain summ where summ: "get_violation_summary (clear_violations ?s) = Inr summ"
      "total_violations summ = 0"
      "dom (violations_by_slice summ) = dom (violation_counts ?s)"
      "\<forall>n c. violations_by_slice summ n = Some c \<longrightarrow> c = 0"
    using clear_then_summary[of ?s] by blast
  have "''URLLC'' \<in> dom (violation_counts ?s)"
    by (simp add: check_sla_counts_dom init_counts default_slices_simps domI)
  then obtain c where "violations_by_slice summ ''URLLC'' = Some c"
    using summ(3) by blast
  then have "violations_by_slice summ ''URLLC'' = Some 0" using summ(4) by blast
  with summ(1,2) show ?thesis by blast
qed

subsection \<open>Missing metric keys\<close>

lemma check_sla_empty_general:
  assumes "slices s n = Some cfg" and "violation_counts s n = Some c"
    and "0 < min_bandwidth_mbps (sla cfg)" and "0 \<le> max_latency_ms (sla cfg)"
    and "0 \<le> max_jitter_ms (sla cfg)" and "0 \<le> max_packet_loss_pct (sla cfg)"
  shows "\<exists>r v d1 d2 d3 d4. fst (check_sla clock s n Map.empty) = Inr r
           \<and> status r = VIOLATED \<and> res_violations r = [v]
           \<and> violation_type v = ''bandwidth'' \<and> actual_value v = 0
           \<and> severity v = ''critical''
           \<and> details r = DetailDims [(''bandwidth'', d1), (''latency'', d2), (''jitter'', d3),
                 (''packet_loss'', d4)]
           \<and> \<not> compliant d1
           \<and> actual d2 = 0 \<and> compliant d2 \<and> actual d3 = 0 \<and> compliant d3
           \<and> actual d4 = 0 \<and> compliant d4"
  using assms
  by (simp add: check_sla_def Let_def metrics_get_def get_severity_def lit_0_8_value)

lemma default_sla_bounds:
  assumes "default_slices n = Some cfg"
  shows "0 \<le> max_latency_ms (sla cfg) \<and> 0 \<le> max_jitter_ms (sla cfg)
           \<and> 0 \<le> max_packet_loss_pct (sla cfg)"
  using default_slices_cases[OF assms]
  by (auto simp: urllc_config_def embb_config_def mmtc_config_def lit_0_001_value)

text \<open>
  Claim C10. Metric keys absent from the mapping count as 0: for every registered slice with
  a strictly positive \<open>min_bandwidth_mbps\<close>, in every state of the manager,
  \<open>check_sla\<close> on the empty mapping returns the status violated with exactly one
  violation, of type bandwidth, with actual value 0 and severity critical, and the details
  report latency, jitter and packet loss as 0 and compliant.
\<close>

theorem check_sla_empty_metrics:
  assumes "reachable s" and "slices s n = Some cfg" and "0 < min_bandwidth_mbps (sla cfg)"
  shows "\<exists>r v d1 d2 d3 d4. fst (check_sla clock s n Map.empty) = Inr r
           \<and> status r = VIOLATED \<and> res_violations r = [v]
           \<and> violation_type v = ''bandwidth'' \<and> actual_value v = 0
           \<and> severity v = ''critical''
           \<and> details r = DetailDims [(''bandwidth'', d1), (''latency'', d2), (''jitter'', d3),
                 (''packet_loss'', d4)]
           \<and> \<not> compliant d1
           \<and> actual d2 = 0 \<and> compliant d2 \<and> actual d3 = 0 \<and> compliant d3
           \<and> actual d4 = 0 \<and> compliant d4"
proof -
  obtain c where c: "violation_counts s n = Some c"
    using reachable_counter[OF assms(1,2)] ..
  have "default_slices n = Some cfg"
    using reachable_registry[OF assms(1)] assms(2) by simp
  then have b: "0 \<le> max_latency_ms (sla cfg)" "0 \<le> max_jitter_ms (sla cfg)"
      "0 \<le> max_packet_loss_pct (sla cfg)"
    using default_sla_bounds by blast+
  show ?thesis by (rule check_sla_empty_general[OF assms(2) c assms(3) b])
qed

theorem check_sla_empty_metrics_witness:
  "reachable SliceManager_init \<and> slices SliceManager_init ''URLLC'' = Some urllc_config
   \<and> 0 < min_bandwidth_mbps (sla urllc_config)
   \<and> (\<exists>r v d1 d2 d3 d4.
           fst (check_sla (\<lambda>_. ''2024-01-01T00:00:00'') SliceManager_init ''URLLC'' Map.empty)
             = Inr r
           \<and> status r = VIOLATED \<and> res_violations r = [v]
           \<and> violation_type v = ''bandwidth'' \<and> actual_value v = 0
           \<and> severity v = ''critical''
           \<and> details r = DetailDims [(''bandwidth'', d1), (''latency'', d2), (''jitter'', d3),
                 (''packet_loss'', d4)]
           \<and> \<not> compliant d1
           \<and> actual d2 = 0 \<and> compliant d2 \<and> actual d3 = 0 \<and> compliant d3
           \<and> actual d4 = 0 \<and> compliant d4)"
proof -
  have pos: "0 < min_bandwidth_mbps (sla urllc_config)" by (simp add: sla_urllc)
  show ?thesis
    by (intro conjI r_init init_lookup(1) pos check_sla_empty_metrics[OF r_init init_lookup(1) pos])
qed

section \<open>Properties of the controller and the metrics collector\<close>

subsection \<open>Aggregation and the metrics of a reply\<close>

lemma calc_bandwidth_mbps_nonneg: "0 \<le> calc_bandwidth_mbps current_bytes prev_bytes time_delta"
  by (simp add: calc_bandwidth_mbps_def Let_def)

lemma py_round3_nonneg:
  assumes "0 \<le> x"
  shows "0 \<le> py_round3 x"
proof -
  have "0 \<le> round_half_even (x * 1000)" using assms by (intro round_half_even_nonneg) simp
  then have "0 \<le> real_of_int (round_half_even (x * 1000)) / 1000" by simp
  then show ?thesis unfolding py_round3_def by (rule to_double_nonneg)
qed

lemma keys_add_counters [simp]: "map fst (add_counters n b p ss) = map fst ss"
  by (induction ss) auto

lemma keys_aggregate_stats [simp]: "map fst (aggregate_stats body ss) = map fst ss"
  by (induction body arbitrary: ss) (auto split: option.splits)

lemma keys_initial_slice_stats: "map fst initial_slice_stats = [''URLLC'', ''eMBB'', ''mMTC'']"
  by (simp add: initial_slice_stats_def)

lemma update_metrics_lookup:
  assumes "distinct (map fst ss)"
  shows "update_metrics ss prev td ms n =
           (case map_of ss n of
              None \<Rightarrow> ms n
            | Some c \<Rightarrow> Some \<lparr>m_bytes = bytes c, m_packets = packets c,
                 bandwidth_mbps = py_round3 (calc_bandwidth_mbps (bytes c) (prev_bytes_of prev n) td)\<rparr>)"
  using assms
proof (induction ss arbitrary: ms)
  case Nil
  then show ?case by simp
next
  case (Cons a ss)
  obtain k c where a: "a = (k, c)" by (cases a)
  from Cons.prems a have k: "k \<notin> fst ` set ss" and d: "distinct (map fst ss)" by auto
  have none: "map_of ss k = None" using k by (simp add: map_of_eq_None_iff)
  show ?case
    unfolding a using Cons.IH[OF d] none
    by (auto simp: Let_def split: option.splits)
qed

lemma aggregate_udp_flow_5001:
  "aggregate_stats [udp_flow 5001 b p] initial_slice_stats =
     [(''URLLC'', \<lparr>bytes = b, packets = p\<rparr>),
      (''eMBB'', \<lparr>bytes = 0, packets = 0\<rparr>),
      (''mMTC'', \<lparr>bytes = 0, packets = 0\<rparr>)]"
  by (simp add: udp_flow_def initial_slice_stats_def SLICE_CONFIG_def)

lemma calc_bandwidth_mbps_reset:
  assumes "current_bytes \<le> prev_bytes"
  shows "calc_bandwidth_mbps current_bytes prev_bytes time_delta = 0"
proof (cases "0 < time_delta")
  case False
  then show ?thesis by (simp add: calc_bandwidth_mbps_def)
next
  case True
  have n: "to_double (real_of_int ((current_bytes - prev_bytes) * 8)) \<le> 0"
    using assms by (intro to_double_nonpos) simp
  have "0 \<le> to_double time_delta" using True by (intro to_double_nonneg) simp
  then have "0 \<le> to_double time_delta * to_double 1000000"
    by (simp add: to_double_numeral)
  then have "0 \<le> to_double (to_double time_delta * to_double 1000000)"
    by (rule to_double_nonneg)
  then have d: "0 \<le> to_double (fmul time_delta 1000000)"
    unfolding fmul_def by (rule to_double_nonneg)
  have "to_double (real_of_int ((current_bytes - prev_bytes) * 8))
          / to_double (fmul time_delta 1000000) \<le> 0"
    using n d by (simp add: divide_nonpos_nonneg)
  then have "fdiv (real_of_int ((current_bytes - prev_bytes) * 8)) (fmul time_delta 1000000) \<le> 0"
    unfolding fdiv_def by (rule to_double_nonpos)
  then show ?thesis using True by (simp add: calc_bandwidth_mbps_def Let_def)
qed

lemma py_round3_zero [simp]: "py_round3 0 = 0"
  by (simp add: py_round3_def)

lemma py_round3_one [simp]: "py_round3 1 = 1"
  by (simp add: py_round3_def)

lemma calc_bandwidth_mbps_example: "calc_bandwidth_mbps 125000 0 1 = 1"
  by (simp add: calc_bandwidth_mbps_def Let_def fdiv_def fmul_def to_double_numeral)

lemma flow_stats_reply_handler_metrics:
  "metrics (flow_stats_reply_handler dpid body t self) n =
     (case map_of (aggregate_stats body initial_slice_stats) n of
        None \<Rightarrow> metrics self n
      | Some c \<Rightarrow> Some \<lparr>m_bytes = bytes c, m_packets = packets c,
           bandwidth_mbps = py_round3 (calc_bandwidth_mbps (bytes c)
              (prev_bytes_of (prev_stats self) n) (time_delta_at self t))\<rparr>)"
  by (simp add: flow_stats_reply_handler_def Let_def update_metrics_lookup
      keys_initial_slice_stats)

lemma collect_flows_append:
  "\<exists>ms. flow_metrics (collect_flows clock td flows self) = flow_metrics self @ ms"
proof (induction flows arbitrary: self)
  case Nil
  then show ?case by simp
next
  case (Cons flow flows)
  show ?case
  proof (cases "flow_slice flow")
    case None
    then show ?thesis using Cons.IH[of self] by simp
  next
    case (Some sname)
    define self' where "self' = self\<lparr>flow_metrics := flow_metrics self @
        [\<lparr>fm_timestamp = clock (length (flow_metrics self)), fm_slice_name = sname,
          fm_bandwidth_mbps = py_round3 (calc_bandwidth_mbps (fe_byte_count flow)
             (case prev_flow_stats self sname of None \<Rightarrow> 0 | Some c \<Rightarrow> bytes c) td),
          fm_packets = fe_packet_count flow, fm_bytes = fe_byte_count flow,
          fm_duration_sec = fe_duration_sec flow, fm_flow_priority = fe_priority flow\<rparr>],
        prev_flow_stats := (prev_flow_stats self)
          (sname \<mapsto> \<lparr>bytes = fe_byte_count flow, packets = fe_packet_count flow\<rparr>)\<rparr>"
    have eq: "collect_flows clock td (flow # flows) self = collect_flows clock td flows self'"
      by (simp add: Some Let_def self'_def)
    obtain ms where "flow_metrics (collect_flows clock td flows self') = flow_metrics self' @ ms"
      using Cons.IH[of self'] by blast
    then show ?thesis unfolding eq by (simp add: self'_def)
  qed
qed

lemma collect_flows_first:
  assumes "flow_slice flow = Some sname"
  shows "flow_metrics (collect_flows clock td (flow # flows) self) ! length (flow_metrics self) =
     \<lparr>fm_timestamp = clock (length (flow_metrics self)), fm_slice_name = sname,
      fm_bandwidth_mbps = py_round3 (calc_bandwidth_mbps (fe_byte_count flow)
         (case prev_flow_stats self sname of None \<Rightarrow> 0 | Some c \<Rightarrow> bytes c) td),
      fm_packets = fe_packet_count flow, fm_bytes = fe_byte_count flow,
      fm_duration_sec = fe_duration_sec flow, fm_flow_priority = fe_priority flow\<rparr>"
proof -
  define self' where "self' = self\<lparr>flow_metrics := flow_metrics self @
        [\<lparr>fm_timestamp = clock (length (flow_metrics self)), fm_slice_name = sname,
          fm_bandwidth_mbps = py_round3 (calc_bandwidth_mbps (fe_byte_count flow)
             (case prev_flow_stats self sname of None \<Rightarrow> 0 | Some c \<Rightarrow> bytes c) td),
          fm_packets = fe_packet_count flow, fm_bytes = fe_byte_count flow,
          fm_duration_sec = fe_duration_sec flow, fm_flow_priority = fe_priority flow\<rparr>],
        prev_flow_stats := (prev_flow_stats self)
          (sname \<mapsto> \<lparr>bytes = fe_byte_count flow, packets = fe_packet_count flow\<rparr>)\<rparr>"
  have eq: "collect_flows clock td (flow # flows) self = collect_flows clock td flows self'"
    by (simp add: assms Let_def self'_def)
  obtain ms where "flow_metrics (collect_flows clock td flows self') = flow_metrics self' @ ms"
    using collect_flows_append by blast
  then show ?thesis unfolding eq by (simp add: self'_def nth_append)
qed

subsection \<open>The first observation\<close>

text \<open>
  Claim C3. The code has no bootstrap case. On the first counter observation for a slice,
  when no previous sample is stored, the previous byte count is taken as 0 and the time
  delta is the time since the previous reply (since construction when there was none), so
  the reported bandwidth is the rate of the whole cumulative byte count, clamped at 0 and
  rounded to three decimals, and 0 only when the time delta is not positive or that rate
  rounds to 0. This holds for \<open>flow_stats_reply_handler\<close> of the controller and, in
  \<open>_collect_controller_metrics\<close> of the collector, for the first flow entry of a
  response.
\<close>

theorem first_observation_rate:
  "(map_of (prev_stats self) n = None
      \<and> map_of (aggregate_stats body initial_slice_stats) n = Some c \<longrightarrow>
      metrics (flow_stats_reply_handler dpid body t self) n =
        Some \<lparr>m_bytes = bytes c, m_packets = packets c,
          bandwidth_mbps = py_round3
            (if 0 < fsub t (prev_time self)
             then max 0 (fdiv (of_int ((bytes c - 0) * 8)) (fmul (fsub t (prev_time self)) 1000000))
             else 0)\<rparr>)
   \<and> (prev_flow_stats coll sname = None \<and> flow_slice flow = Some sname \<longrightarrow>
      fm_bandwidth_mbps
        (flow_metrics (collect_controller_metrics clock (Some (200, flow # flows)) t coll)
           ! length (flow_metrics coll))
      = py_round3
          (if 0 < fsub t (mc_prev_time coll)
           then max 0 (fdiv (of_int ((fe_byte_count flow - 0) * 8))
                         (fmul (fsub t (mc_prev_time coll)) 1000000))
           else 0))"
proof (intro conjI impI)
  assume "map_of (prev_stats self) n = None
      \<and> map_of (aggregate_stats body initial_slice_stats) n = Some c"
  then show "metrics (flow_stats_reply_handler dpid body t self) n =
        Some \<lparr>m_bytes = bytes c, m_packets = packets c,
          bandwidth_mbps = py_round3
            (if 0 < fsub t (prev_time self)
             then max 0 (fdiv (of_int ((bytes c - 0) * 8)) (fmul (fsub t (prev_time self)) 1000000))
             else 0)\<rparr>"
    by (simp add: flow_stats_reply_handler_metrics prev_bytes_of_def time_delta_at_def
        calc_bandwidth_mbps_def Let_def)
next
  assume a: "prev_flow_stats coll sname = None \<and> flow_slice flow = Some sname"
  then have f: "flow_slice flow = Some sname" by simp
  show "fm_bandwidth_mbps
        (flow_metrics (collect_controller_metrics clock (Some (200, flow # flows)) t coll)
           ! length (flow_metrics coll))
      = py_round3
          (if 0 < fsub t (mc_prev_time coll)
           then max 0 (fdiv (of_int ((fe_byte_count flow - 0) * 8))
                         (fmul (fsub t (mc_prev_time coll)) 1000000))
           else 0)"
    using a
    by (simp add: collect_controller_metrics_def Let_def collect_flows_first[OF f]
        calc_bandwidth_mbps_def del: collect_flows.simps)
qed

text \<open>
  An example: a controller constructed at time 0 receives its first reply at time 1, with
  125000 bytes counted for URLLC. No previous sample is stored, and the bandwidth reported
  for URLLC is 1 Mbps, not 0.
\<close>

theorem first_observation_counterexample:
  "prev_stats (SlicingController_init 0) = []
   \<and> metrics (flow_stats_reply_handler 1 [udp_flow 5001 125000 100] 1
        (SlicingController_init 0)) ''URLLC''
      = Some \<lparr>m_bytes = 125000, m_packets = 100, bandwidth_mbps = 1\<rparr>"
  by (simp add: flow_stats_reply_handler_metrics aggregate_udp_flow_5001 prev_bytes_of_def
      time_delta_at_def fsub_def SlicingController_init_def calc_bandwidth_mbps_example
      del: aggregate_stats.simps)

theorem first_observation_rate_witness:
  "map_of (prev_stats (SlicingController_init 0)) ''URLLC'' = None
   \<and> map_of (aggregate_stats [udp_flow 5001 125000 100] initial_slice_stats) ''URLLC''
       = Some \<lparr>bytes = 125000, packets = 100\<rparr>
   \<and> metrics (flow_stats_reply_handler 1 [udp_flow 5001 125000 100] 1
        (SlicingController_init 0)) ''URLLC''
      = Some \<lparr>m_bytes = 125000, m_packets = 100, bandwidth_mbps = 1\<rparr>
   \<and> prev_flow_stats (MetricsCollector_init 0) ''URLLC'' = None
   \<and> flow_slice \<lparr>fe_udp_dst = Some 5001, fe_byte_count = 125000, fe_packet_count = 100,
          fe_duration_sec = 1, fe_priority = 100\<rparr> = Some ''URLLC''
   \<and> fm_bandwidth_mbps
        (flow_metrics (collect_controller_metrics fixed_clock
           (Some (200, [\<lparr>fe_udp_dst = Some 5001, fe_byte_count = 125000,
               fe_packet_count = 100, fe_duration_sec = 1, fe_priority = 100\<rparr>])) 1
           (MetricsCollector_init 0)) ! length (flow_metrics (MetricsCollector_init 0))) = 1"
proof -
  let ?flow = "\<lparr>fe_udp_dst = Some 5001, fe_byte_count = 125000, fe_packet_count = 100,
          fe_duration_sec = 1, fe_priority = 100\<rparr>"
  have h1: "map_of (prev_stats (SlicingController_init 0)) ''URLLC'' = None"
    by (simp add: SlicingController_init_def)
  have h2: "map_of (aggregate_stats [udp_flow 5001 125000 100] initial_slice_stats) ''URLLC''
       = Some \<lparr>bytes = 125000, packets = 100\<rparr>"
    by (simp add: aggregate_udp_flow_5001 del: aggregate_stats.simps)
  have h3: "prev_flow_stats (MetricsCollector_init 0) ''URLLC'' = None"
    by (simp add: MetricsCollector_init_def)
  have h4: "flow_slice ?flow = Some ''URLLC''"
    by (simp add: flow_slice_def PORT_TO_SLICE_def)
  have t0: "prev_time (SlicingController_init 0) = 0" "mc_prev_time (MetricsCollector_init 0) = 0"
    by (simp_all add: SlicingController_init_def MetricsCollector_init_def)
  note inst = first_observation_rate[of "SlicingController_init 0" "''URLLC''"
      "[udp_flow 5001 125000 100]" "\<lparr>bytes = 125000, packets = 100\<rparr>" 1 1
      "MetricsCollector_init 0" "''URLLC''" ?flow fixed_clock "[]"]
  have c1: "metrics (flow_stats_reply_handler 1 [udp_flow 5001 125000 100] 1
        (SlicingController_init 0)) ''URLLC''
      = Some \<lparr>m_bytes = 125000, m_packets = 100, bandwidth_mbps = 1\<rparr>"
    using mp[OF conjunct1[OF inst] conjI[OF h1 h2]]
    by (simp add: t0 fsub_def fdiv_def fmul_def to_double_numeral)
  have c2: "fm_bandwidth_mbps
        (flow_metrics (collect_controller_metrics fixed_clock (Some (200, [?flow])) 1
           (MetricsCollector_init 0)) ! length (flow_metrics (MetricsCollector_init 0))) = 1"
    using mp[OF conjunct2[OF inst] conjI[OF h3 h4]]
    by (simp add: t0 fsub_def fdiv_def fmul_def to_double_numeral)
  from h1 h2 c1 h3 h4 c2 show ?thesis by blast
qed

subsection \<open>Switch connect\<close>

lemma switch_features_handler_sent:
  "switch_features_handler dpid self =
     self\<lparr>datapaths := (datapaths self)(dpid \<mapsto> dpid),
          sent := sent self @
            [(dpid, OFPFlowMod \<lparr>fm_priority = 0, fm_match = empty_match,
                 fm_instructions =
                   [OFPInstructionActions [OFPActionOutput OFPP_CONTROLLER OFPCML_NO_BUFFER]],
                 fm_idle_timeout = 0, fm_hard_timeout = 0, fm_table_id = 0\<rparr>)] @
            map (\<lambda>(port, config). (dpid, slice_meter config)) SLICE_CONFIG @
            map (\<lambda>(port, config). (dpid, slice_rule port config)) SLICE_CONFIG\<rparr>"
  by (simp add: switch_features_handler_def Let_def add_flow_def send_msg_def
      install_meters_def install_slice_rules_def SLICE_CONFIG_def)

text \<open>
  Claim C4. The controller keeps no set of installed rules. Every switch-connect event
  sends the table-miss rule, the three meters and the three slice classification rules to
  the switch, whatever the state of the controller; a second connect of the same switch
  sends the same seven messages again, and leaves the registry of datapaths as the first
  connect left it. The metrics and the previous-sample state are not touched.
\<close>

theorem switch_connect_resends:
  "sent (switch_features_handler dpid self) =
     sent self @
       [(dpid, OFPFlowMod \<lparr>fm_priority = 0, fm_match = empty_match,
            fm_instructions =
              [OFPInstructionActions [OFPActionOutput OFPP_CONTROLLER OFPCML_NO_BUFFER]],
            fm_idle_timeout = 0, fm_hard_timeout = 0, fm_table_id = 0\<rparr>)] @
       map (\<lambda>(port, config). (dpid, slice_meter config)) SLICE_CONFIG @
       map (\<lambda>(port, config). (dpid, slice_rule port config)) SLICE_CONFIG
   \<and> drop (length (sent (switch_features_handler dpid self)))
        (sent (switch_features_handler dpid (switch_features_handler dpid self)))
      = drop (length (sent self)) (sent (switch_features_handler dpid self))
   \<and> datapaths (switch_features_handler dpid (switch_features_handler dpid self))
      = datapaths (switch_features_handler dpid self)
   \<and> metrics (switch_features_handler dpid self) = metrics self
   \<and> prev_stats (switch_features_handler dpid self) = prev_stats self
   \<and> prev_time (switch_features_handler dpid self) = prev_time self"
  by (simp add: switch_features_handler_sent)

text \<open>
  An example: after two connects of switch 1 to a fresh controller, the classification rule
  of URLLC has been sent to it twice, among 14 messages; one connect sends 7.
\<close>

theorem switch_connect_twice_counterexample:
  "count_list
     (sent (switch_features_handler 1 (switch_features_handler 1 (SlicingController_init 0))))
     (1, slice_rule 5001 \<lparr>se_name = ''URLLC'', se_dscp = 46, se_meter_id = 1,
            se_rate_kbps = 10000, se_priority = 100\<rparr>) = 2
   \<and> length (sent (switch_features_handler 1 (SlicingController_init 0))) = 7
   \<and> length (sent (switch_features_handler 1
         (switch_features_handler 1 (SlicingController_init 0)))) = 14"
  by (simp add: switch_features_handler_sent SLICE_CONFIG_def SlicingController_init_def
      slice_rule_def slice_meter_def)

subsection \<open>The previous-sample state\<close>

lemma run_replies_snoc:
  "run_replies self (hist @ [(dpid, body, t)])
     = flow_stats_reply_handler dpid body t (run_replies self hist)"
  by (induction hist arbitrary: self) auto

lemma flow_stats_reply_handler_prev:
  "prev_stats (flow_stats_reply_handler dpid body t self) = aggregate_stats body initial_slice_stats"
  "prev_time (flow_stats_reply_handler dpid body t self) = t"
  by (simp_all add: flow_stats_reply_handler_def Let_def)

lemma run_replies_prev:
  assumes "hist \<noteq> []"
  shows "prev_stats (run_replies self hist)
           = aggregate_stats (fst (snd (last hist))) initial_slice_stats"
    and "prev_time (run_replies self hist) = snd (snd (last hist))"
proof -
  obtain h a where h: "hist = h @ [a]" using assms by (metis append_butlast_last_id)
  obtain dpid body t where a: "a = (dpid, body, t)" by (cases a)
  show "prev_stats (run_replies self hist)
           = aggregate_stats (fst (snd (last hist))) initial_slice_stats"
    unfolding h a run_replies_snoc by (simp add: flow_stats_reply_handler_prev)
  show "prev_time (run_replies self hist) = snd (snd (last hist))"
    unfolding h a run_replies_snoc by (simp add: flow_stats_reply_handler_prev)
qed

text \<open>
  Claim C5. After every stats reply, the previous-sample state is the per-slice aggregate
  of the reply just handled, from whichever switch it came: one sample per slice (URLLC,
  eMBB, mMTC), not one per (slice, datapath). The stored time is the time of that reply, and
  the time delta that the next reply uses, from any switch, is the time since it: the
  metrics of the next reply are computed from these two.
\<close>

theorem prev_sample_state_last_reply:
  assumes "hist \<noteq> []"
  shows "prev_stats (run_replies self hist)
           = aggregate_stats (fst (snd (last hist))) initial_slice_stats
       \<and> map fst (prev_stats (run_replies self hist)) = [''URLLC'', ''eMBB'', ''mMTC'']
       \<and> prev_time (run_replies self hist) = snd (snd (last hist))
       \<and> time_delta_at (run_replies self hist) t' = fsub t' (snd (snd (last hist)))
       \<and> metrics (flow_stats_reply_handler dpid' body' t' (run_replies self hist))
           = update_metrics (aggregate_stats body' initial_slice_stats)
               (aggregate_stats (fst (snd (last hist))) initial_slice_stats)
               (fsub t' (snd (snd (last hist)))) (metrics (run_replies self hist))"
  by (simp add: run_replies_prev[OF assms] keys_initial_slice_stats time_delta_at_def
      flow_stats_reply_handler_def Let_def)

text \<open>
  An example: switch 1 replies at time 5 with 1000 bytes for URLLC, switch 2 at time 6 with
  50 bytes. The state then holds the sample of switch 2 alone for URLLC, although the latest
  sample of switch 1 is 1000 bytes; and a reply of switch 1 at time 10 uses the time delta 4,
  although switch 1 was last polled at time 5, which is 5 before.
\<close>

theorem prev_sample_state_counterexample:
  "prev_stats (run_replies (SlicingController_init 0)
      [(1, [udp_flow 5001 1000 10], 5), (2, [udp_flow 5001 50 1], 6)])
     = [(''URLLC'', \<lparr>bytes = 50, packets = 1\<rparr>),
        (''eMBB'', \<lparr>bytes = 0, packets = 0\<rparr>),
        (''mMTC'', \<lparr>bytes = 0, packets = 0\<rparr>)]
   \<and> spec_latest_sample [(1, [udp_flow 5001 1000 10], 5), (2, [udp_flow 5001 50 1], 6)]
        ''URLLC'' 1 = Some \<lparr>bytes = 1000, packets = 10\<rparr>
   \<and> spec_latest_sample [(1, [udp_flow 5001 1000 10], 5), (2, [udp_flow 5001 50 1], 6)]
        ''URLLC'' 2 = Some \<lparr>bytes = 50, packets = 1\<rparr>
   \<and> spec_last_poll_time [(1, [udp_flow 5001 1000 10], 5), (2, [udp_flow 5001 50 1], 6)] 1
      = Some 5
   \<and> time_delta_at (run_replies (SlicingController_init 0)
        [(1, [udp_flow 5001 1000 10], 5), (2, [udp_flow 5001 50 1], 6)]) 10 = 4
   \<and> fsub 10 5 = 5"
  by (simp add: flow_stats_reply_handler_prev aggregate_udp_flow_5001 time_delta_at_def
      fsub_def to_double_numeral del: aggregate_stats.simps)

theorem prev_sample_state_last_reply_witness:
  "[(1::nat, [udp_flow 5001 1000 10], 5::real), (2, [udp_flow 5001 50 1], 6)] \<noteq> []
   \<and> prev_stats (run_replies (SlicingController_init 0)
        [(1, [udp_flow 5001 1000 10], 5), (2, [udp_flow 5001 50 1], 6)])
      = [(''URLLC'', \<lparr>bytes = 50, packets = 1\<rparr>),
         (''eMBB'', \<lparr>bytes = 0, packets = 0\<rparr>),
         (''mMTC'', \<lparr>bytes = 0, packets = 0\<rparr>)]
   \<and> prev_time (run_replies (SlicingController_init 0)
        [(1, [udp_flow 5001 1000 10], 5), (2, [udp_flow 5001 50 1], 6)]) = 6
   \<and> time_delta_at (run_replies (SlicingController_init 0)
        [(1, [udp_flow 5001 1000 10], 5), (2, [udp_flow 5001 50 1], 6)]) 10 = 4"
proof -
  have ne: "[(1::nat, [udp_flow 5001 1000 10], 5::real), (2, [udp_flow 5001 50 1], 6)] \<noteq> []"
    by simp
  show ?thesis
    using prev_sample_state_last_reply[OF ne, of "SlicingController_init 0" 10 1 "[]"]
    by (simp add: aggregate_udp_flow_5001 fsub_def to_double_numeral
        del: aggregate_stats.simps run_replies.simps)
qed

subsection \<open>Bandwidth is not negative\<close>

lemma update_metrics_nonneg:
  assumes "\<forall>n m. ms n = Some m \<longrightarrow> 0 \<le> bandwidth_mbps m"
  shows "\<forall>n m. update_metrics ss prev td ms n = Some m \<longrightarrow> 0 \<le> bandwidth_mbps m"
  using assms
proof (induction ss arbitrary: ms)
  case Nil
  then show ?case by simp
next
  case (Cons a ss)
  obtain k c where a: "a = (k, c)" by (cases a)
  have "\<forall>n m. (ms(k \<mapsto> \<lparr>m_bytes = bytes c, m_packets = packets c,
          bandwidth_mbps = py_round3 (calc_bandwidth_mbps (bytes c) (prev_bytes_of prev k) td)\<rparr>)) n
            = Some m \<longrightarrow> 0 \<le> bandwidth_mbps m"
    using Cons.prems by (auto simp: py_round3_nonneg calc_bandwidth_mbps_nonneg)
  then show ?case unfolding a update_metrics.simps Let_def by (rule Cons.IH)
qed

lemma run_replies_nonneg:
  assumes "\<forall>n m. metrics self n = Some m \<longrightarrow> 0 \<le> bandwidth_mbps m"
  shows "\<forall>n m. metrics (run_replies self hist) n = Some m \<longrightarrow> 0 \<le> bandwidth_mbps m"
  using assms
proof (induction hist arbitrary: self)
  case Nil
  then show ?case by simp
next
  case (Cons a hist)
  obtain dpid body t where a: "a = (dpid, body, t)" by (cases a)
  have "\<forall>n m. metrics (flow_stats_reply_handler dpid body t self) n = Some m
          \<longrightarrow> 0 \<le> bandwidth_mbps m"
    using update_metrics_nonneg[OF Cons.prems]
    by (simp add: flow_stats_reply_handler_def Let_def)
  then show ?case unfolding a run_replies.simps by (rule Cons.IH)
qed

lemma collect_flows_nonneg:
  assumes "\<forall>fm \<in> set (flow_metrics self). 0 \<le> fm_bandwidth_mbps fm"
  shows "\<forall>fm \<in> set (flow_metrics (collect_flows clock td flows self)).
           0 \<le> fm_bandwidth_mbps fm"
  using assms
proof (induction flows arbitrary: self)
  case Nil
  then show ?case by simp
next
  case (Cons flow flows)
  show ?case
  proof (cases "flow_slice flow")
    case None
    then show ?thesis using Cons by simp
  next
    case (Some sname)
    show ?thesis
      unfolding collect_flows.simps Some option.case Let_def
      by (rule Cons.IH)
        (use Cons.prems in \<open>auto simp: py_round3_nonneg calc_bandwidth_mbps_nonneg\<close>)
  qed
qed

lemma collect_controller_metrics_nonneg:
  assumes "\<forall>fm \<in> set (flow_metrics self). 0 \<le> fm_bandwidth_mbps fm"
  shows "\<forall>fm \<in> set (flow_metrics (collect_controller_metrics clock response t self)).
           0 \<le> fm_bandwidth_mbps fm"
  using assms collect_flows_nonneg[OF assms]
  by (auto simp: collect_controller_metrics_def Let_def split: option.splits)

lemma run_collections_nonneg:
  assumes "\<forall>fm \<in> set (flow_metrics self). 0 \<le> fm_bandwidth_mbps fm"
  shows "\<forall>fm \<in> set (flow_metrics (run_collections clock self hist)).
           0 \<le> fm_bandwidth_mbps fm"
  using assms
proof (induction hist arbitrary: self)
  case Nil
  then show ?case by simp
next
  case (Cons a hist)
  obtain response t where a: "a = (response, t)" by (cases a)
  show ?case unfolding a run_collections.simps
    by (rule Cons.IH) (rule collect_controller_metrics_nonneg[OF Cons.prems])
qed

text \<open>
  Claim C6. The computed bandwidth is never negative: for every current and previous byte
  count (also a current count below the previous one, and the previous count 0 of the first
  sample) and every time delta, before and after the rounding to three decimals. Hence no
  entry of \<open>metrics\<close> is negative after any history of stats replies handled by a
  fresh controller, and no flow metric recorded by a fresh collector is negative after any
  history of collection cycles.
\<close>

theorem bandwidth_never_negative:
  "0 \<le> calc_bandwidth_mbps current_bytes prev_bytes time_delta
   \<and> 0 \<le> py_round3 (calc_bandwidth_mbps current_bytes prev_bytes time_delta)
   \<and> (\<forall>n m. metrics (run_replies (SlicingController_init now) replies) n = Some m
          \<longrightarrow> 0 \<le> bandwidth_mbps m)
   \<and> (\<forall>fm \<in> set (flow_metrics (run_collections clock (MetricsCollector_init now') cycles)).
          0 \<le> fm_bandwidth_mbps fm)"
proof (intro conjI)
  show "0 \<le> calc_bandwidth_mbps current_bytes prev_bytes time_delta"
    by (rule calc_bandwidth_mbps_nonneg)
  then show "0 \<le> py_round3 (calc_bandwidth_mbps current_bytes prev_bytes time_delta)"
    by (rule py_round3_nonneg)
  have "\<forall>n m. metrics (SlicingController_init now) n = Some m \<longrightarrow> 0 \<le> bandwidth_mbps m"
    by (simp add: SlicingController_init_def)
  then show "\<forall>n m. metrics (run_replies (SlicingController_init now) replies) n = Some m
          \<longrightarrow> 0 \<le> bandwidth_mbps m"
    by (rule run_replies_nonneg)
  have "\<forall>fm \<in> set (flow_metrics (MetricsCollector_init now')). 0 \<le> fm_bandwidth_mbps fm"
    by (simp add: MetricsCollector_init_def)
  then show "\<forall>fm \<in> set (flow_metrics (run_collections clock (MetricsCollector_init now') cycles)).
          0 \<le> fm_bandwidth_mbps fm"
    by (rule run_collections_nonneg)
qed

theorem bandwidth_never_negative_witness:
  "metrics (run_replies (SlicingController_init 0)
      [(1, [udp_flow 5001 1000 10], 1), (1, [udp_flow 5001 400 4], 2)]) ''URLLC''
     = Some \<lparr>m_bytes = 400, m_packets = 4, bandwidth_mbps = 0\<rparr>
   \<and> 0 \<le> bandwidth_mbps \<lparr>m_bytes = 400, m_packets = 4, bandwidth_mbps = 0\<rparr>
   \<and> \<lparr>fm_timestamp = fixed_clock 0, fm_slice_name = ''URLLC'', fm_bandwidth_mbps = 1,
        fm_packets = 100, fm_bytes = 125000, fm_duration_sec = 1, fm_flow_priority = 100\<rparr>
      \<in> set (flow_metrics (run_collections fixed_clock (MetricsCollector_init 0)
            [(Some (200, [\<lparr>fe_udp_dst = Some 5001, fe_byte_count = 125000,
                 fe_packet_count = 100, fe_duration_sec = 1, fe_priority = 100\<rparr>]), 1)]))
   \<and> 0 \<le> fm_bandwidth_mbps \<lparr>fm_timestamp = fixed_clock 0, fm_slice_name = ''URLLC'',
        fm_bandwidth_mbps = 1, fm_packets = 100, fm_bytes = 125000, fm_duration_sec = 1,
        fm_flow_priority = 100\<rparr>"
proof -
  let ?hist = "[(1::nat, [udp_flow 5001 1000 10], 1::real), (1, [udp_flow 5001 400 4], 2)]"
  let ?m = "\<lparr>m_bytes = 400, m_packets = 4, bandwidth_mbps = 0\<rparr>"
  let ?fm = "\<lparr>fm_timestamp = fixed_clock 0, fm_slice_name = ''URLLC'', fm_bandwidth_mbps = 1,
        fm_packets = 100, fm_bytes = 125000, fm_duration_sec = 1, fm_flow_priority = 100\<rparr>"
  let ?cycles = "[(Some (200::nat, [\<lparr>fe_udp_dst = Some 5001, fe_byte_count = 125000,
                 fe_packet_count = 100, fe_duration_sec = 1, fe_priority = 100\<rparr>]), 1::real)]"
  have m: "metrics (run_replies (SlicingController_init 0) ?hist) ''URLLC'' = Some ?m"
    by (simp add: flow_stats_reply_handler_metrics flow_stats_reply_handler_prev
        aggregate_udp_flow_5001 prev_bytes_of_def calc_bandwidth_mbps_reset
        del: aggregate_stats.simps)
  have f: "?fm \<in> set (flow_metrics (run_collections fixed_clock (MetricsCollector_init 0) ?cycles))"
    by (simp add: collect_controller_metrics_def Let_def MetricsCollector_init_def flow_slice_def
        PORT_TO_SLICE_def fsub_def calc_bandwidth_mbps_example)
  note inst = bandwidth_never_negative[of 400 1000 1 0 ?hist fixed_clock 0 ?cycles]
  from inst m have "0 \<le> bandwidth_mbps ?m" by blast
  moreover from inst f have "0 \<le> fm_bandwidth_mbps ?fm" by blast
  ultimately show ?thesis using m f by blast
qed

end
